theory Spec2Isabelle
  imports Complex_Main "HOL-Library.Multiset" "HOL-Library.Sublist" "HOL-Library.Log_Nat"
begin


section \<open>Binary64 arithmetic\<close>

text \<open>
  The numbers of JavaScript are IEEE 754 binary64 numbers. A finite one is an integer
  multiple \<open>m * 2^s / 2^1074\<close> with \<open>\<bar>m\<bar> \<le> 2^53\<close>; the least positive one is
  \<open>1 / 2^1074\<close>. \<open>fl x\<close> is the multiple nearest to \<open>x\<close> on the scale of \<open>x\<close>, a tie
  going to the even \<open>m\<close>: the result of an operation whose exact value is \<open>x\<close>. The
  scale \<open>s\<close> leaves 53 binary digits to \<open>m\<close> and is 0 for the subnormal numbers.
  A result of magnitude \<open>2^1024\<close> or more is \<open>Infinity\<close> in JavaScript; infinities and
  \<open>NaN\<close> are not values of this model, where \<open>fl\<close> rounds such a result like any other.
\<close>

definition round_even :: "real \<Rightarrow> int" where
  "round_even y =
     (let f = \<lfloor>y\<rfloor>; d = y - of_int f
      in if d < 1 / 2 then f else if 1 / 2 < d then f + 1 else if even f then f else f + 1)"

definition last_place :: "real \<Rightarrow> nat" where
  "last_place X = floorlog 2 (nat \<lfloor>\<bar>X\<bar>\<rfloor>) - 53"

definition tiny :: nat where
  "tiny = 1074"

definition fl :: "real \<Rightarrow> real" where
  "fl x =
     (let X = x * 2 ^ tiny;
          s = last_place X
      in of_int (round_even (X / 2 ^ s)) * 2 ^ s / 2 ^ tiny)"


section \<open>Data model of \<open>src/App.tsx\<close>\<close>

text \<open>
  A JavaScript number is the real number it denotes, and every arithmetic operation of
  the code is the exact operation followed by the rounding \<open>fl\<close>; comparisons,
  \<^verbatim>\<open>Math.max\<close>, \<^verbatim>\<open>Math.min\<close>, \<^verbatim>\<open>Math.round\<close> and \<^verbatim>\<open>Math.floor\<close> are exact.
  A numeric property of a card that the code guards at run time
  (\<^verbatim>\<open>typeof c.ef === "number"\<close>, \<^verbatim>\<open>c.due ?? 0\<close>, \<^verbatim>\<open>c.lapses || 0\<close>) is a
  \<^typ>\<open>real option\<close>, where \<open>None\<close> is a property missing from the object.
  \<open>lastReviewed\<close> has the type \<^verbatim>\<open>number | null\<close>; there \<open>None\<close> is \<^verbatim>\<open>null\<close>.
\<close>

record CardT =
  card_id :: string
  card_term :: string
  card_definition :: string
  due :: "real option"
  ef :: "real option"
  reps :: "real option"
  interval :: "real option"
  lapses :: "real option"
  lastReviewed :: "real option"

record DeckT =
  deck_id :: string
  deck_name :: string
  deck_description :: string
  cards :: "CardT list"

record AppState =
  decks :: "DeckT list"
  selectedDeckId :: "string option"

text \<open>
  The ambient clock \<^verbatim>\<open>Date.now()\<close>: the state is the sequence of the readings still to
  come, and \<open>nowMs\<close> takes the first one.
\<close>

type_synonym clock = "nat \<Rightarrow> real"

definition nowMs :: "clock \<Rightarrow> real \<times> clock" where
  "nowMs clk = (clk 0, \<lambda>n. clk (Suc n))"

definition clamp :: "real \<Rightarrow> real \<Rightarrow> real \<Rightarrow> real" where
  "clamp n a b = max a (min b n)"

text \<open>\<^verbatim>\<open>Math.round\<close> rounds to the nearest integer, a tie towards \<open>+\<infinity>\<close>.\<close>

definition Math_round :: "real \<Rightarrow> real" where
  "Math_round x = of_int \<lfloor>x + 1 / 2\<rfloor>"

text \<open>\<^verbatim>\<open>typeof v === "number" ? v : d\<close>\<close>

definition num_or :: "real option \<Rightarrow> real \<Rightarrow> real" where
  "num_or v d = (case v of Some x \<Rightarrow> x | None \<Rightarrow> d)"

section \<open>The scheduler\<close>

text \<open>
  \<open>scheduleNext\<close>, lines 143 to 180. The grade is the run-time number; the declared type
  \<^verbatim>\<open>0 | 1 | 2 | 3\<close> is checked by the compiler only. The copy \<^verbatim>\<open>{ ...card }\<close> is the
  value \<open>c\<close>; each assignment to a property of \<open>c\<close> is a record update. Each call of
  \<^verbatim>\<open>nowMs()\<close> takes a reading of its own from the clock. \<^verbatim>\<open>c.lapses || 0\<close> is 0 for a
  missing \<open>lapses\<close> and for 0. A decimal literal of the code is the binary64 number
  nearest to it, \<open>fl 2.3\<close> for \<^verbatim>\<open>2.3\<close>; the literals \<^verbatim>\<open>3.0\<close>, \<^verbatim>\<open>24\<close>, \<^verbatim>\<open>60\<close> and
  \<^verbatim>\<open>1000\<close> are binary64 numbers themselves. A product of three factors is rounded
  after each multiplication, from the left.
\<close>

definition scheduleNext :: "CardT \<Rightarrow> int \<Rightarrow> clock \<Rightarrow> CardT \<times> clock" where
  "scheduleNext crd grade clk0 =
    (let c = crd;
         ef0 = num_or (ef c) (fl 2.3);
         reps0 = num_or (reps c) 0;
         interval0 = num_or (interval c) 0;
         newEf = ef0
     in if grade = 0 then
          (let c = c\<lparr>reps := Some 0\<rparr>;
               c = c\<lparr>interval := Some 0\<rparr>;
               (t, clk) = nowMs clk0;
               c = c\<lparr>due := Some t\<rparr>;
               c = c\<lparr>lapses := Some (fl (num_or (lapses c) 0 + 1))\<rparr>;
               newEf = clamp (fl (ef0 - fl 0.2)) (fl 1.3) 3;
               c = c\<lparr>ef := Some newEf\<rparr>;
               (t, clk) = nowMs clk
           in (c\<lparr>lastReviewed := Some t\<rparr>, clk))
        else
          (let newReps = fl (reps0 + 1);
               c = c\<lparr>reps := Some newReps\<rparr>;
               newEf = (if grade = 1 then clamp (fl (ef0 - fl 0.05)) (fl 1.3) 3 else newEf);
               newEf = (if grade = 2 then clamp (fl (ef0 + fl 0.02)) (fl 1.3) 3 else newEf);
               newEf = (if grade = 3 then clamp (fl (ef0 + fl 0.08)) (fl 1.3) 3 else newEf);
               newInterval =
                 (if newReps = 1 then 1
                  else if newReps = 2 then (if grade = 1 then 2 else 3)
                  else (let mult = (if grade = 1 then fl 1.15 else if grade = 2 then fl 1.35
                                    else fl 1.7)
                        in max 1 (Math_round (fl (fl (interval0 * newEf) * mult)))));
               c = c\<lparr>interval := Some newInterval\<rparr>;
               (t, clk) = nowMs clk0;
               c = c\<lparr>due := Some (fl (t + fl (fl (fl (fl (newInterval * 24) * 60) * 60)
                                           * 1000)))\<rparr>;
               c = c\<lparr>ef := Some newEf\<rparr>;
               (t, clk) = nowMs clk
           in (c\<lparr>lastReviewed := Some t\<rparr>, clk)))"


section \<open>The scheduler on objects\<close>

text \<open>
  Cards are objects, held by reference in the deck and in the queue of a session. The
  store maps a reference to the object it points to; \<open>fresh\<close> is the next unused
  reference. \<^verbatim>\<open>{ ...card }\<close> allocates a new object with the properties of \<open>card\<close>,
  and \<^verbatim>\<open>c.reps = 0\<close> writes to the object \<open>c\<close> points to.
\<close>

record store =
  cells :: "nat \<Rightarrow> CardT"
  fresh :: nat

definition alloc :: "store \<Rightarrow> CardT \<Rightarrow> nat \<times> store" where
  "alloc s v = (fresh s, s\<lparr>cells := (cells s)(fresh s := v), fresh := Suc (fresh s)\<rparr>)"

definition assign :: "store \<Rightarrow> nat \<Rightarrow> (CardT \<Rightarrow> CardT) \<Rightarrow> store" where
  "assign s r f = s\<lparr>cells := (cells s)(r := f (cells s r))\<rparr>"

definition scheduleNext_obj :: "store \<Rightarrow> nat \<Rightarrow> int \<Rightarrow> clock \<Rightarrow> nat \<times> store \<times> clock" where
  "scheduleNext_obj s0 crd grade clk0 =
    (let (c, s) = alloc s0 (cells s0 crd);
         ef0 = num_or (ef (cells s c)) (fl 2.3);
         reps0 = num_or (reps (cells s c)) 0;
         interval0 = num_or (interval (cells s c)) 0;
         newEf = ef0
     in if grade = 0 then
          (let s = assign s c (\<lambda>obj. obj\<lparr>reps := Some 0\<rparr>);
               s = assign s c (\<lambda>obj. obj\<lparr>interval := Some 0\<rparr>);
               (t, clk) = nowMs clk0;
               s = assign s c (\<lambda>obj. obj\<lparr>due := Some t\<rparr>);
               s = assign s c (\<lambda>obj. obj\<lparr>lapses := Some (fl (num_or (lapses (cells s c)) 0 + 1))\<rparr>);
               newEf = clamp (fl (ef0 - fl 0.2)) (fl 1.3) 3;
               s = assign s c (\<lambda>obj. obj\<lparr>ef := Some newEf\<rparr>);
               (t, clk) = nowMs clk;
               s = assign s c (\<lambda>obj. obj\<lparr>lastReviewed := Some t\<rparr>)
           in (c, s, clk))
        else
          (let newReps = fl (reps0 + 1);
               s = assign s c (\<lambda>obj. obj\<lparr>reps := Some newReps\<rparr>);
               newEf = (if grade = 1 then clamp (fl (ef0 - fl 0.05)) (fl 1.3) 3 else newEf);
               newEf = (if grade = 2 then clamp (fl (ef0 + fl 0.02)) (fl 1.3) 3 else newEf);
               newEf = (if grade = 3 then clamp (fl (ef0 + fl 0.08)) (fl 1.3) 3 else newEf);
               newInterval =
                 (if newReps = 1 then 1
                  else if newReps = 2 then (if grade = 1 then 2 else 3)
                  else (let mult = (if grade = 1 then fl 1.15 else if grade = 2 then fl 1.35
                                    else fl 1.7)
                        in max 1 (Math_round (fl (fl (interval0 * newEf) * mult)))));
               s = assign s c (\<lambda>obj. obj\<lparr>interval := Some newInterval\<rparr>);
               (t, clk) = nowMs clk0;
               s = assign s c (\<lambda>obj. obj\<lparr>due := Some (fl (t + fl (fl (fl (fl (newInterval * 24) * 60) * 60)
                                                                    * 1000)))\<rparr>);
               s = assign s c (\<lambda>obj. obj\<lparr>ef := Some newEf\<rparr>);
               (t, clk) = nowMs clk;
               s = assign s c (\<lambda>obj. obj\<lparr>lastReviewed := Some t\<rparr>)
           in (c, s, clk)))"

section \<open>The card collection\<close>

text \<open>
  \<^verbatim>\<open>Partial<CardT>\<close>: every property may be missing. \<^verbatim>\<open>{ ...c, ...patch }\<close> takes a
  property from \<open>patch\<close> where \<open>patch\<close> has it and from \<open>c\<close> otherwise.
\<close>

record PartialCardT =
  p_id :: "string option"
  p_term :: "string option"
  p_definition :: "string option"
  p_due :: "real option"
  p_ef :: "real option"
  p_reps :: "real option"
  p_interval :: "real option"
  p_lapses :: "real option"
  p_lastReviewed :: "real option option"

text \<open>A card passed where a \<^verbatim>\<open>Partial<CardT>\<close> is expected.\<close>

definition as_patch :: "CardT \<Rightarrow> PartialCardT" where
  "as_patch c =
     \<lparr>p_id = Some (card_id c), p_term = Some (card_term c),
      p_definition = Some (card_definition c),
      p_due = due c, p_ef = ef c, p_reps = reps c, p_interval = interval c,
      p_lapses = lapses c, p_lastReviewed = Some (lastReviewed c)\<rparr>"

text \<open>The value of a property after the spread: that of the patch when the patch has it.\<close>

definition over :: "'a option \<Rightarrow> 'a \<Rightarrow> 'a" where
  "over p v = (case p of Some w \<Rightarrow> w | None \<Rightarrow> v)"

definition over_opt :: "'a option \<Rightarrow> 'a option \<Rightarrow> 'a option" where
  "over_opt p v = (case p of Some w \<Rightarrow> Some w | None \<Rightarrow> v)"

definition spread :: "CardT \<Rightarrow> PartialCardT \<Rightarrow> CardT" where
  "spread c patch =
     \<lparr>card_id = over (p_id patch) (card_id c),
      card_term = over (p_term patch) (card_term c),
      card_definition = over (p_definition patch) (card_definition c),
      due = over_opt (p_due patch) (due c),
      ef = over_opt (p_ef patch) (ef c),
      reps = over_opt (p_reps patch) (reps c),
      interval = over_opt (p_interval patch) (interval c),
      lapses = over_opt (p_lapses patch) (lapses c),
      lastReviewed = over (p_lastReviewed patch) (lastReviewed c)\<rparr>"

definition updateDeck :: "AppState \<Rightarrow> string \<Rightarrow> (DeckT \<Rightarrow> DeckT) \<Rightarrow> AppState" where
  "updateDeck s deckId updater =
     s\<lparr>decks := map (\<lambda>d. if deck_id d = deckId then updater d else d) (decks s)\<rparr>"

definition updateCard :: "AppState \<Rightarrow> string \<Rightarrow> string \<Rightarrow> PartialCardT \<Rightarrow> AppState" where
  "updateCard s deckId cardId patch =
     updateDeck s deckId
       (\<lambda>d. d\<lparr>cards := map (\<lambda>c. if card_id c = cardId then spread c patch else c) (cards d)\<rparr>)"

text \<open>
  \<^verbatim>\<open>decks.find((x) => x.id === state.selectedDeckId) ?? decks[0] ?? null\<close>; no deck has
  the identifier \<^verbatim>\<open>null\<close>.
\<close>

definition selectedDeck :: "AppState \<Rightarrow> DeckT option" where
  "selectedDeck s =
     (case (case selectedDeckId s of
              None \<Rightarrow> None
            | Some sel \<Rightarrow> List.find (\<lambda>x. deck_id x = sel) (decks s)) of
        Some d \<Rightarrow> Some d
      | None \<Rightarrow> (case decks s of [] \<Rightarrow> None | d # _ \<Rightarrow> Some d))"

section \<open>The Learn session\<close>

record LearnSessionT =
  startedAt :: real
  queue :: "CardT list"
  idx :: nat
  flipped :: bool
  graded :: nat
  total_cards :: nat

text \<open>The state of the component: the persisted state and the session, \<open>None\<close> for \<^verbatim>\<open>null\<close>.\<close>

record App =
  app_state :: AppState
  learnSession :: "LearnSessionT option"

text \<open>
  \<^verbatim>\<open>Math.random()\<close>: the state is the sequence of the draws still to come, each a
  binary64 number in \<open>[0, 1)\<close>.
\<close>

type_synonym rng = "nat \<Rightarrow> real"

definition Math_random :: "rng \<Rightarrow> real \<times> rng" where
  "Math_random g = (g 0, \<lambda>n. g (Suc n))"


text \<open>
  The loop of \<open>shuffleArray\<close>, for \<open>i\<close> from the first argument down to 1. The swap
  \<^verbatim>\<open>[a[i], a[j]] = [a[j], a[i]]\<close> reads both elements before it writes. The index
  \<open>i + 1\<close> is an integer below \<open>2^32\<close> and exact; the product with the draw is rounded.
\<close>

fun shuffle_loop :: "nat \<Rightarrow> 'a list \<Rightarrow> rng \<Rightarrow> 'a list \<times> rng" where
  "shuffle_loop 0 a g = (a, g)"
| "shuffle_loop (Suc k) a g =
     (let i = Suc k;
          (r, g') = Math_random g;
          j = nat \<lfloor>fl (r * (real i + 1))\<rfloor>
      in shuffle_loop k (a[i := a ! j, j := a ! i]) g')"


text \<open>The two filters of \<open>startLearn\<close>, lines 577 and 578: \<^verbatim>\<open>(c.due ?? 0) <= now\<close>.\<close>

definition dueCards :: "CardT list \<Rightarrow> real \<Rightarrow> CardT list" where
  "dueCards cs now = filter (\<lambda>c. num_or (due c) 0 \<le> now) cs"

definition notDueCards :: "CardT list \<Rightarrow> real \<Rightarrow> CardT list" where
  "notDueCards cs now = filter (\<lambda>c. num_or (due c) 0 > now) cs"


text \<open>\<^verbatim>\<open>learnSession.queue[learnSession.idx]\<close>, \<^verbatim>\<open>undefined\<close> beyond the end.\<close>

definition current_card :: "LearnSessionT \<Rightarrow> CardT option" where
  "current_card ls = (if idx ls < length (queue ls) then Some (queue ls ! idx ls) else None)"

definition gradeLearn :: "App \<Rightarrow> int \<Rightarrow> clock \<Rightarrow> App \<times> clock" where
  "gradeLearn app grade clk0 =
     (case selectedDeck (app_state app) of
        None \<Rightarrow> (app, clk0)
      | Some sd \<Rightarrow>
          (case learnSession app of
             None \<Rightarrow> (app, clk0)
           | Some session \<Rightarrow>
               (case current_card session of
                  None \<Rightarrow> (app, clk0)
                | Some crd \<Rightarrow>
                    (let (updated, clk) = scheduleNext crd grade clk0;
                         app = app\<lparr>app_state :=
                                 updateCard (app_state app) (deck_id sd) (card_id crd)
                                   (as_patch updated)\<rparr>;
                         app = app\<lparr>learnSession :=
                                 (case learnSession app of
                                    None \<Rightarrow> None
                                  | Some ls \<Rightarrow>
                                      Some (ls\<lparr>idx := idx ls + 1, flipped := False,
                                               graded := graded ls + 1\<rparr>))\<rparr>
                     in (app, clk)))))"

text \<open>The handler of the button that reveals the answer, line 1101.\<close>

definition revealLearn :: "App \<Rightarrow> App" where
  "revealLearn app =
     app\<lparr>learnSession :=
           (case learnSession app of None \<Rightarrow> None | Some ls \<Rightarrow> Some (ls\<lparr>flipped := True\<rparr>))\<rparr>"



section \<open>Sample inputs\<close>

text \<open>A clock that advances by one millisecond at each reading, and one that stands still.\<close>

definition ticking :: "real \<Rightarrow> clock" where
  "ticking t n = t + real n"

definition frozen :: "real \<Rightarrow> clock" where
  "frozen t n = t"

text \<open>A clock whose first reading is \<open>a\<close> and whose later readings are all \<open>b\<close>.\<close>

definition two_then :: "real \<Rightarrow> real \<Rightarrow> clock" where
  "two_then a b n = (if n = 0 then a else b)"

text \<open>A card with the given \<open>reps\<close>, \<open>interval\<close>, \<open>ef\<close> and \<open>lapses\<close>.\<close>

definition sample_card :: "real \<Rightarrow> real \<Rightarrow> real \<Rightarrow> real \<Rightarrow> CardT" where
  "sample_card r i e l =
     \<lparr>card_id = ''c1'', card_term = ''NIST'', card_definition = ''A US standards body'',
      due = Some 0, ef = Some e, reps = Some r, interval = Some i, lapses = Some l,
      lastReviewed = None\<rparr>"

text \<open>A store with one allocated card, at reference 0.\<close>

definition sample_store :: store where
  "sample_store = \<lparr>cells = (\<lambda>n. sample_card 2 3 2.3 0), fresh = 1\<rparr>"

text \<open>
  A deck of one new card, selected, with a session on that card at position 0; the
  argument is the flip-state.
\<close>

definition sample_deck :: DeckT where
  "sample_deck = \<lparr>deck_id = ''d1'', deck_name = ''Sample Deck'', deck_description = '''',
                   cards = [sample_card 0 0 2.3 0]\<rparr>"

definition sample_app :: "bool \<Rightarrow> App" where
  "sample_app f =
     \<lparr>app_state = \<lparr>decks = [sample_deck], selectedDeckId = Some ''d1''\<rparr>,
      learnSession = Some \<lparr>startedAt = 1000, queue = [sample_card 0 0 2.3 0], idx = 0,
                           flipped = f, graded = 0, total_cards = 1\<rparr>\<rparr>"

text \<open>
  A deck of five cards, three of them due when the clock reads 1000, in an application
  without a session; the first deck is the selected one. Every draw of the sample
  generator is a quarter.
\<close>

definition due_card :: "string \<Rightarrow> real \<Rightarrow> CardT" where
  "due_card i d =
     \<lparr>card_id = i, card_term = ''term'', card_definition = ''definition'',
      due = Some d, ef = Some 2.3, reps = Some 0, interval = Some 0, lapses = Some 0,
      lastReviewed = None\<rparr>"

definition five_deck :: DeckT where
  "five_deck = \<lparr>deck_id = ''d5'', deck_name = ''Five'', deck_description = '''',
                 cards = [due_card ''a'' 0, due_card ''b'' 5000, due_card ''c'' 10,
                          due_card ''d'' 9999, due_card ''e'' 1000]\<rparr>"




text \<open>A card read from storage with every numeric property missing.\<close>

definition bare_card :: CardT where
  "bare_card =
     \<lparr>card_id = ''c0'', card_term = ''COBIT'', card_definition = ''A framework'',
      due = None, ef = None, reps = None, interval = None, lapses = None,
      lastReviewed = None\<rparr>"



section \<open>Properties of the rounding\<close>

lemma round_even_of_int [simp]: "round_even (of_int m) = m"
  by (simp add: round_even_def)

lemma round_even_cases:
  "round_even y = \<lfloor>y\<rfloor> \<or> round_even y = \<lfloor>y\<rfloor> + 1"
  by (simp add: round_even_def Let_def)

lemma round_even_ge_floor: "\<lfloor>y\<rfloor> \<le> round_even y"
  using round_even_cases [of y] by auto

lemma round_even_le_ceil: "round_even y \<le> \<lceil>y\<rceil>"
proof (cases "y = of_int \<lfloor>y\<rfloor>")
  case True
  then have "round_even y = \<lfloor>y\<rfloor>" by (metis round_even_of_int)
  then show ?thesis by (simp add: floor_le_ceiling)
next
  case False
  then have "\<lceil>y\<rceil> = \<lfloor>y\<rfloor> + 1" by (simp add: ceiling_altdef)
  with round_even_cases [of y] show ?thesis by auto
qed

lemma round_even_mono:
  assumes "y \<le> z"
  shows "round_even y \<le> round_even z"
proof (cases "\<lfloor>y\<rfloor> = \<lfloor>z\<rfloor>")
  case True
  with assms have "y - of_int \<lfloor>y\<rfloor> \<le> z - of_int \<lfloor>z\<rfloor>" by simp
  with True show ?thesis by (auto simp: round_even_def Let_def)
next
  case False
  with assms have "\<lfloor>y\<rfloor> < \<lfloor>z\<rfloor>" using floor_mono [OF assms] by linarith
  then have "round_even y \<le> \<lfloor>z\<rfloor>" using round_even_cases [of y] by auto
  with round_even_ge_floor [of z] show ?thesis by linarith
qed

lemma round_even_minus: "round_even (- y) = - round_even y"
proof (cases "y = of_int \<lfloor>y\<rfloor>")
  case True
  then obtain m where "y = of_int m" by metis
  then have "- y = of_int (- m)" by simp
  then show ?thesis using \<open>y = of_int m\<close> by (metis round_even_of_int)
next
  case False
  then have fm: "\<lfloor>- y\<rfloor> = - \<lfloor>y\<rfloor> - 1"
    by (metis ceiling_altdef ceiling_def add_diff_cancel_right' minus_add minus_diff_eq
        diff_minus_eq_add minus_minus uminus_add_conv_diff)
  have d: "0 < y - of_int \<lfloor>y\<rfloor>" using False by linarith
  show ?thesis
    unfolding round_even_def Let_def fm using d by (auto simp: algebra_simps)
qed

lemma round_even_nonneg: "0 \<le> y \<Longrightarrow> 0 \<le> round_even y"
  using round_even_mono [of 0 y] round_even_of_int [of 0] by simp

lemma last_place_minus [simp]: "last_place (- X) = last_place X"
  by (simp add: last_place_def)

lemma round_even_0 [simp]: "round_even 0 = 0"
  using round_even_of_int [of 0] by simp

lemma fl_0 [simp]: "fl 0 = 0"
  by (simp add: fl_def)

lemma pow2_diff: "s \<le> b \<Longrightarrow> (2::real) ^ b / 2 ^ s = of_int (2 ^ (b - s))"
proof -
  assume "s \<le> b"
  then have "(2::real) ^ (b - s) = 2 ^ b / 2 ^ s" by (simp add: power_diff)
  then show ?thesis by simp
qed

lemma fl_minus: "fl (- x) = - fl x"
  by (simp add: fl_def Let_def round_even_minus)

lemma bits_upper:
  fixes X :: real
  assumes "0 \<le> X"
  shows "X < 2 ^ floorlog 2 (nat \<lfloor>X\<rfloor>)"
proof (cases "nat \<lfloor>X\<rfloor> = 0")
  case True
  then have "\<lfloor>X\<rfloor> < 1" by simp
  then have "X < 1" by (simp only: floor_less_iff of_int_1)
  moreover have "floorlog 2 (nat \<lfloor>X\<rfloor>) = 0"
    unfolding True by (simp only: floorlog_eq_zero_iff) simp
  ultimately show ?thesis by (simp only: power_0)
next
  case False
  then have "nat \<lfloor>X\<rfloor> < 2 ^ floorlog 2 (nat \<lfloor>X\<rfloor>)"
    using floorlog_bounds [of "nat \<lfloor>X\<rfloor>" 2] by simp
  then have "int (nat \<lfloor>X\<rfloor>) < int (2 ^ floorlog 2 (nat \<lfloor>X\<rfloor>))"
    by (simp only: of_nat_less_iff)
  moreover have "int (nat \<lfloor>X\<rfloor>) = \<lfloor>X\<rfloor>" using False by simp
  ultimately have "\<lfloor>X\<rfloor> < 2 ^ floorlog 2 (nat \<lfloor>X\<rfloor>)" by simp
  then have "X < of_int (2 ^ floorlog 2 (nat \<lfloor>X\<rfloor>))"
    by (simp only: floor_less_iff)
  then show ?thesis by simp
qed

lemma bits_lower:
  fixes X :: real
  assumes "0 \<le> X" "0 < floorlog 2 (nat \<lfloor>X\<rfloor>)"
  shows "2 ^ (floorlog 2 (nat \<lfloor>X\<rfloor>) - 1) \<le> X"
proof -
  from assms(2) have "floorlog 2 (nat \<lfloor>X\<rfloor>) \<noteq> 0" by simp
  then have pos: "0 < nat \<lfloor>X\<rfloor>" by (simp only: floorlog_eq_zero_iff) simp
  then have "2 ^ (floorlog 2 (nat \<lfloor>X\<rfloor>) - 1) \<le> nat \<lfloor>X\<rfloor>"
    using floorlog_bounds [of "nat \<lfloor>X\<rfloor>" 2] by simp
  then have "real (2 ^ (floorlog 2 (nat \<lfloor>X\<rfloor>) - 1)) \<le> real (nat \<lfloor>X\<rfloor>)"
    by (simp only: of_nat_le_iff)
  also have "real (nat \<lfloor>X\<rfloor>) = of_int \<lfloor>X\<rfloor>" using pos by simp
  also have "\<dots> \<le> X" by simp
  finally show ?thesis by simp
qed

text \<open>The rounding on the scale of the last place.\<close>

lemma scaled_upper:
  assumes "0 \<le> X"
  shows "of_int (round_even (X / 2 ^ last_place X)) * 2 ^ last_place X
         \<le> (2::real) ^ floorlog 2 (nat \<lfloor>X\<rfloor>)"
proof -
  let ?b = "floorlog 2 (nat \<lfloor>X\<rfloor>)"
  let ?s = "last_place X"
  have s: "?s \<le> ?b" using assms by (simp add: last_place_def)
  have "X / 2 ^ ?s \<le> 2 ^ ?b / 2 ^ ?s"
    using bits_upper [OF assms] by (simp add: divide_right_mono)
  also have "\<dots> = of_int (2 ^ (?b - ?s))" using s by (rule pow2_diff)
  finally have "\<lceil>X / 2 ^ ?s\<rceil> \<le> 2 ^ (?b - ?s)" by (simp only: ceiling_le_iff)
  with round_even_le_ceil [of "X / 2 ^ ?s"]
  have "round_even (X / 2 ^ ?s) \<le> 2 ^ (?b - ?s)" by linarith
  then have "(of_int (round_even (X / 2 ^ ?s)) :: real) \<le> of_int (2 ^ (?b - ?s))"
    by (simp only: of_int_le_iff)
  then have "of_int (round_even (X / 2 ^ ?s)) * 2 ^ ?s \<le> (2::real) ^ (?b - ?s) * 2 ^ ?s"
    by (simp add: mult_right_mono)
  also have "\<dots> = 2 ^ ?b" using s by (simp add: power_add [symmetric])
  finally show ?thesis .
qed

lemma scaled_lower:
  assumes "0 \<le> X" "0 < floorlog 2 (nat \<lfloor>X\<rfloor>)"
  shows "(2::real) ^ (floorlog 2 (nat \<lfloor>X\<rfloor>) - 1)
         \<le> of_int (round_even (X / 2 ^ last_place X)) * 2 ^ last_place X"
proof -
  let ?b = "floorlog 2 (nat \<lfloor>X\<rfloor>)"
  let ?s = "last_place X"
  have s: "?s \<le> ?b - 1" using assms by (simp add: last_place_def)
  have "of_int (2 ^ (?b - 1 - ?s)) = (2::real) ^ (?b - 1) / 2 ^ ?s"
    using s by (rule pow2_diff [symmetric])
  also have "\<dots> \<le> X / 2 ^ ?s"
    using bits_lower [OF assms] by (simp add: divide_right_mono)
  finally have "2 ^ (?b - 1 - ?s) \<le> \<lfloor>X / 2 ^ ?s\<rfloor>" by (simp only: le_floor_iff)
  with round_even_ge_floor [of "X / 2 ^ ?s"]
  have "2 ^ (?b - 1 - ?s) \<le> round_even (X / 2 ^ ?s)" by linarith
  then have "(of_int (2 ^ (?b - 1 - ?s)) :: real) \<le> of_int (round_even (X / 2 ^ ?s))"
    by (simp only: of_int_le_iff)
  then have le: "(2::real) ^ (?b - 1 - ?s) * 2 ^ ?s \<le> of_int (round_even (X / 2 ^ ?s)) * 2 ^ ?s"
    by (simp add: mult_right_mono)
  have "(2::real) ^ (?b - 1) = 2 ^ (?b - 1 - ?s + ?s)" using s by simp
  also have "\<dots> = 2 ^ (?b - 1 - ?s) * 2 ^ ?s" by (rule power_add)
  also note le
  finally show ?thesis .
qed

lemma scaled_mono:
  assumes "0 \<le> X" "X \<le> Y"
  shows "of_int (round_even (X / 2 ^ last_place X)) * (2::real) ^ last_place X
         \<le> of_int (round_even (Y / 2 ^ last_place Y)) * 2 ^ last_place Y"
proof -
  let ?bx = "floorlog 2 (nat \<lfloor>X\<rfloor>)" and ?by = "floorlog 2 (nat \<lfloor>Y\<rfloor>)"
  from assms have Y: "0 \<le> Y" by simp
  have le: "?bx \<le> ?by"
    using assms by (intro floorlog_mono nat_mono floor_mono)
  show ?thesis
  proof (cases "?bx = ?by")
    case True
    then have s: "last_place X = last_place Y"
      using assms Y by (simp add: last_place_def)
    have "X / 2 ^ last_place Y \<le> Y / 2 ^ last_place Y"
      using assms by (simp add: divide_right_mono)
    then have "round_even (X / 2 ^ last_place Y) \<le> round_even (Y / 2 ^ last_place Y)"
      by (rule round_even_mono)
    then have "(of_int (round_even (X / 2 ^ last_place Y)) :: real)
               \<le> of_int (round_even (Y / 2 ^ last_place Y))"
      by (simp only: of_int_le_iff)
    then show ?thesis unfolding s by (simp add: mult_right_mono)
  next
    case False
    with le have lt: "?bx < ?by" by simp
    then have pos: "0 < ?by" by simp
    have "of_int (round_even (X / 2 ^ last_place X)) * (2::real) ^ last_place X \<le> 2 ^ ?bx"
      using assms(1) by (rule scaled_upper)
    also have "\<dots> \<le> 2 ^ (?by - 1)" using lt by (simp add: power_increasing)
    also have "\<dots> \<le> of_int (round_even (Y / 2 ^ last_place Y)) * 2 ^ last_place Y"
      using Y pos by (rule scaled_lower)
    finally show ?thesis .
  qed
qed

lemma fl_mono_nonneg:
  assumes "0 \<le> x" "x \<le> y"
  shows "fl x \<le> fl y"
proof -
  have "0 \<le> x * 2 ^ tiny" "x * 2 ^ tiny \<le> y * 2 ^ tiny" using assms by simp_all
  from scaled_mono [OF this] show ?thesis
    by (simp add: fl_def Let_def divide_right_mono)
qed

lemma fl_nonneg: "0 \<le> x \<Longrightarrow> 0 \<le> fl x"
  using fl_mono_nonneg [of 0 x] by simp

lemma fl_nonpos: "x \<le> 0 \<Longrightarrow> fl x \<le> 0"
  using fl_nonneg [of "- x"] by (simp add: fl_minus)

lemma fl_mono:
  assumes "x \<le> y"
  shows "fl x \<le> fl y"
proof (cases "0 \<le> x")
  case True
  then show ?thesis using assms by (rule fl_mono_nonneg)
next
  case False
  show ?thesis
  proof (cases "0 \<le> y")
    case True
    from False have "fl x \<le> 0" by (intro fl_nonpos) simp
    also have "0 \<le> fl y" using True by (rule fl_nonneg)
    finally show ?thesis .
  next
    case False
    then have "0 \<le> - y" "- y \<le> - x" using assms by simp_all
    then have "fl (- y) \<le> fl (- x)" by (rule fl_mono_nonneg)
    then show ?thesis by (simp add: fl_minus)
  qed
qed

lemma floor_pow2_le:
  fixes Z :: real
  assumes "2 ^ p \<le> Z"
  shows "2 ^ p \<le> nat \<lfloor>Z\<rfloor>"
proof -
  have "of_int (2 ^ p) \<le> Z" using assms by simp
  then have "(2::int) ^ p \<le> \<lfloor>Z\<rfloor>" by (simp only: le_floor_iff)
  then have "nat (2 ^ p) \<le> nat \<lfloor>Z\<rfloor>" by (rule nat_mono)
  moreover have "nat (2 ^ p) = 2 ^ p" by (simp add: nat_power_eq)
  ultimately show ?thesis by simp
qed

lemma floor_pow2_less:
  fixes Z :: real
  assumes "Z < 2 ^ p"
  shows "nat \<lfloor>Z\<rfloor> < 2 ^ p"
proof -
  have "Z < of_int (2 ^ p)" using assms by simp
  then have "\<lfloor>Z\<rfloor> < 2 ^ p" by (simp only: floor_less_iff)
  moreover have "(0::int) < 2 ^ p" by simp
  ultimately have "nat \<lfloor>Z\<rfloor> < nat (2 ^ p)" by (simp only: nat_less_eq_zless nat_mono_iff)
  moreover have "nat (2 ^ p) = 2 ^ p" by (simp add: nat_power_eq)
  ultimately show ?thesis by simp
qed

lemma last_place_at:
  fixes Z :: real
  assumes "2 ^ p \<le> \<bar>Z\<bar>" "\<bar>Z\<bar> < 2 ^ Suc p"
  shows "last_place Z = p - 52"
proof -
  have lo: "2 ^ p \<le> nat \<lfloor>\<bar>Z\<bar>\<rfloor>" using assms(1) by (rule floor_pow2_le)
  have hi: "nat \<lfloor>\<bar>Z\<bar>\<rfloor> < 2 ^ Suc p" using assms(2) by (rule floor_pow2_less)
  have "floorlog 2 (nat \<lfloor>\<bar>Z\<bar>\<rfloor>) \<le> Suc p" using hi by (intro floorlog_leI) simp_all
  moreover have "Suc p \<le> floorlog 2 (nat \<lfloor>\<bar>Z\<bar>\<rfloor>)" using lo by (intro floorlog_geI) simp_all
  ultimately show ?thesis by (simp add: last_place_def)
qed

lemma last_place_small:
  fixes Z :: real
  assumes "\<bar>Z\<bar> < 2 ^ 53"
  shows "last_place Z = 0"
proof -
  have "nat \<lfloor>\<bar>Z\<bar>\<rfloor> < 2 ^ 53" using assms by (rule floor_pow2_less)
  then have "floorlog 2 (nat \<lfloor>\<bar>Z\<bar>\<rfloor>) \<le> 53" by (intro floorlog_leI) simp_all
  then show ?thesis by (simp add: last_place_def)
qed

lemma fl_scale_up:
  assumes lo: "2 ^ 52 \<le> \<bar>x\<bar> * 2 ^ c" and hi: "\<bar>x\<bar> * 2 ^ c < 2 ^ 53" and c: "c \<le> 1074"
  shows "fl x = of_int (round_even (x * 2 ^ c)) / 2 ^ c"
proof -
  define d where "d = tiny - c"
  have t: "tiny = d + c" using c by (simp add: d_def tiny_def)
  have X: "x * 2 ^ tiny = x * 2 ^ c * 2 ^ d" by (simp add: t power_add)
  have a: "\<bar>x * 2 ^ tiny\<bar> = \<bar>x\<bar> * 2 ^ c * 2 ^ d" by (simp add: X abs_mult)
  have "(2::real) ^ (52 + d) = 2 ^ 52 * 2 ^ d" by (rule power_add)
  also have "\<dots> \<le> \<bar>x\<bar> * 2 ^ c * 2 ^ d" using lo by (rule mult_right_mono) simp
  finally have l: "2 ^ (52 + d) \<le> \<bar>x * 2 ^ tiny\<bar>" by (simp only: a)
  have "\<bar>x\<bar> * 2 ^ c * 2 ^ d < 2 ^ 53 * 2 ^ d" using hi by (rule mult_strict_right_mono) simp
  also have "\<dots> = 2 ^ (53 + d)" by (rule power_add [symmetric])
  finally have h: "\<bar>x * 2 ^ tiny\<bar> < 2 ^ Suc (52 + d)" by (simp only: a) simp
  from l h have "last_place (x * 2 ^ tiny) = 52 + d - 52" by (rule last_place_at)
  then have s: "last_place (x * 2 ^ tiny) = d" by simp
  have "fl x = of_int (round_even (x * 2 ^ tiny / 2 ^ d)) * 2 ^ d / 2 ^ tiny"
    by (simp only: fl_def Let_def s)
  then have "fl x = of_int (round_even (x * 2 ^ c * 2 ^ d / 2 ^ d)) * 2 ^ d / 2 ^ tiny"
    by (simp only: X)
  also have "x * 2 ^ c * 2 ^ d / 2 ^ d = x * 2 ^ c" by simp
  also have "real_of_int (round_even (x * 2 ^ c)) * 2 ^ d / 2 ^ tiny
             = real_of_int (round_even (x * 2 ^ c)) / 2 ^ c"
    by (simp add: t power_add)
  finally show ?thesis .
qed

lemma fl_subnormal:
  assumes "\<bar>x\<bar> * 2 ^ 1074 < 2 ^ 52"
  shows "fl x = of_int (round_even (x * 2 ^ 1074)) / 2 ^ 1074"
proof -
  have "\<bar>x * 2 ^ tiny\<bar> = \<bar>x\<bar> * 2 ^ 1074" by (simp add: abs_mult tiny_def)
  also have "\<dots> < 2 ^ 52" by (rule assms)
  also have "(2::real) ^ 52 < 2 ^ 53" by simp
  finally have "last_place (x * 2 ^ tiny) = 0" by (rule last_place_small)
  then have "fl x = of_int (round_even (x * 2 ^ tiny)) / 2 ^ tiny"
    by (simp add: fl_def Let_def)
  then show ?thesis by (simp only: tiny_def)
qed

lemma fl_scale_down:
  assumes lo: "2 ^ 52 \<le> \<bar>x\<bar> / 2 ^ c" and hi: "\<bar>x\<bar> / 2 ^ c < 2 ^ 53"
  shows "fl x = of_int (round_even (x / 2 ^ c)) * 2 ^ c"
proof -
  define d where "d = tiny + c"
  have X: "x * 2 ^ tiny = x / 2 ^ c * 2 ^ d" by (simp add: d_def power_add)
  have a: "\<bar>x * 2 ^ tiny\<bar> = \<bar>x\<bar> / 2 ^ c * 2 ^ d" by (simp add: X abs_mult)
  have "(2::real) ^ (52 + d) = 2 ^ 52 * 2 ^ d" by (rule power_add)
  also have "\<dots> \<le> \<bar>x\<bar> / 2 ^ c * 2 ^ d" using lo by (rule mult_right_mono) simp
  finally have l: "2 ^ (52 + d) \<le> \<bar>x * 2 ^ tiny\<bar>" by (simp only: a)
  have "\<bar>x\<bar> / 2 ^ c * 2 ^ d < 2 ^ 53 * 2 ^ d" using hi by (rule mult_strict_right_mono) simp
  also have "\<dots> = 2 ^ (53 + d)" by (rule power_add [symmetric])
  finally have h: "\<bar>x * 2 ^ tiny\<bar> < 2 ^ Suc (52 + d)" by (simp only: a) simp
  from l h have "last_place (x * 2 ^ tiny) = 52 + d - 52" by (rule last_place_at)
  then have s: "last_place (x * 2 ^ tiny) = d" by simp
  have "fl x = of_int (round_even (x * 2 ^ tiny / 2 ^ d)) * 2 ^ d / 2 ^ tiny"
    by (simp only: fl_def Let_def s)
  then have "fl x = of_int (round_even (x / 2 ^ c * 2 ^ d / 2 ^ d)) * 2 ^ d / 2 ^ tiny"
    by (simp only: X)
  also have "x / 2 ^ c * 2 ^ d / 2 ^ d = x / 2 ^ c" by simp
  also have "real_of_int (round_even (x / 2 ^ c)) * 2 ^ d / 2 ^ tiny
             = real_of_int (round_even (x / 2 ^ c)) * 2 ^ c"
    by (simp add: d_def power_add)
  finally show ?thesis .
qed

lemma fl_of_int:
  assumes "\<bar>m\<bar> \<le> 2 ^ 53"
  shows "fl (of_int m) = of_int m"
proof -
  have pos: "fl (of_int n) = of_int n" if n: "0 < n" "n \<le> 2 ^ 53" for n :: int
  proof -
    define b where "b = floorlog 2 (nat n)"
    have "\<not> ((2::nat) \<le> 1 \<or> nat n \<le> 0)" using n by simp
    then have "b \<noteq> 0" unfolding b_def by (simp only: floorlog_eq_zero_iff simp_thms)
    then have bpos: "0 < b" by simp
    have bounds: "2 ^ (b - 1) \<le> nat n" "nat n < 2 ^ b"
      using floorlog_bounds [of "nat n" 2] n by (simp_all add: b_def)
    have le: "b \<le> 54"
    proof -
      have "nat n < 2 ^ 54" using n by (simp add: nat_less_iff)
      then show ?thesis unfolding b_def by (intro floorlog_leI) simp_all
    qed
    show ?thesis
    proof (cases "b \<le> 53")
      case True
      define c where "c = 53 - b"
      have bc: "b - 1 + c = 52" "b + c = 53" using True bpos by (simp_all add: c_def)
      have nn: "\<bar>real_of_int n\<bar> = real (nat n)" using n by simp
      have "(2::real) ^ 52 = 2 ^ (b - 1) * 2 ^ c" by (simp only: bc(1) [symmetric] power_add)
      also have "\<dots> \<le> real (nat n) * 2 ^ c"
      proof (rule mult_right_mono)
        have "real (2 ^ (b - 1)) \<le> real (nat n)" using bounds(1) by (simp only: of_nat_le_iff)
        then show "(2::real) ^ (b - 1) \<le> real (nat n)" by simp
      qed simp
      finally have lo: "2 ^ 52 \<le> \<bar>real_of_int n\<bar> * 2 ^ c" by (simp only: nn)
      have "real (nat n) * 2 ^ c < 2 ^ b * 2 ^ c"
      proof (rule mult_strict_right_mono)
        have "real (nat n) < real (2 ^ b)" using bounds(2) by (simp only: of_nat_less_iff)
        then show "real (nat n) < 2 ^ b" by simp
      qed simp
      also have "\<dots> = 2 ^ 53" by (simp only: bc(2) [symmetric] power_add)
      finally have hi: "\<bar>real_of_int n\<bar> * 2 ^ c < 2 ^ 53" by (simp only: nn)
      have "c \<le> 1074" by (simp add: c_def)
      from fl_scale_up [OF lo hi this]
      have "fl (of_int n) = of_int (round_even (of_int (n * 2 ^ c))) / 2 ^ c" by simp
      then show ?thesis by (simp only: round_even_of_int) simp
    next
      case False
      with le have b: "b = 54" by simp
      with bounds(1) n have "n = 2 ^ 53" by (simp add: le_nat_iff)
      have lo: "2 ^ 52 \<le> \<bar>real_of_int n\<bar> / 2 ^ 1" and hi: "\<bar>real_of_int n\<bar> / 2 ^ 1 < 2 ^ 53"
        by (simp_all add: \<open>n = 2 ^ 53\<close>)
      from fl_scale_down [OF lo hi]
      have "fl (of_int n) = of_int (round_even (of_int (2 ^ 52))) * 2 ^ 1"
        by (simp add: \<open>n = 2 ^ 53\<close>)
      then show ?thesis by (simp only: round_even_of_int) (simp add: \<open>n = 2 ^ 53\<close>)
    qed
  qed
  consider "m = 0" | "0 < m" | "m < 0" by linarith
  then show ?thesis
  proof cases
    case 1
    then show ?thesis by simp
  next
    case 2
    with assms show ?thesis by (intro pos) simp_all
  next
    case 3
    with assms have "fl (of_int (- m)) = of_int (- m)" by (intro pos) simp_all
    then show ?thesis by (simp add: fl_minus)
  qed
qed


section \<open>Roundings of the sample inputs\<close>

lemma fl_0_02: "fl (1 / 50) = 5764607523034235 / 2 ^ 58"
  by (subst fl_scale_up [where c = 58]) (simp_all add: round_even_def)

lemma fl_0_05: "fl (1 / 20) = 3602879701896397 / 2 ^ 56"
  by (subst fl_scale_up [where c = 57]) (simp_all add: round_even_def)

lemma fl_0_08: "fl (2 / 25) = 5764607523034235 / 2 ^ 56"
  by (subst fl_scale_up [where c = 56]) (simp_all add: round_even_def)

lemma fl_0_2: "fl (1 / 5) = 3602879701896397 / 2 ^ 54"
  by (subst fl_scale_up [where c = 55]) (simp_all add: round_even_def)

lemma rounding_1: "fl (1 / 4) = 1 / 2 ^ 2"
  by (subst fl_scale_up [where c = 54]) (simp_all add: round_even_def)

lemma rounding_2: "fl (6004799503160661 / 18014398509481984) = 6004799503160661 / 2 ^ 54"
  by (subst fl_scale_up [where c = 54]) (simp_all add: round_even_def)

lemma rounding_3: "fl (1 / 2) = 1 / 2 ^ 1"
  by (subst fl_scale_up [where c = 53]) (simp_all add: round_even_def)

lemma rounding_4: "fl (6004799503160661 / 9007199254740992) = 6004799503160661 / 2 ^ 53"
  by (subst fl_scale_up [where c = 53]) (simp_all add: round_even_def)

lemma rounding_5: "fl (3 / 4) = 3 / 2 ^ 2"
  by (subst fl_scale_up [where c = 53]) (simp_all add: round_even_def)

lemma rounding_6: "fl (18014398509481983 / 18014398509481984) = 1"
  by (subst fl_scale_up [where c = 53]) (simp_all add: round_even_def)

lemma rounding_7: "fl (1) = 1"
  by (subst fl_scale_up [where c = 52]) (simp_all add: round_even_def)

lemma rounding_8: "fl (19815838360430183 / 18014398509481984) = 2476979795053773 / 2 ^ 51"
  by (subst fl_scale_up [where c = 52]) (simp_all add: round_even_def)

lemma fl_1_15: "fl (23 / 20) = 2589569785738035 / 2 ^ 51"
  by (subst fl_scale_up [where c = 52]) (simp_all add: round_even_def)

lemma rounding_9: "fl (90071992547409923 / 72057594037927936) = 5 / 2 ^ 2"
  by (subst fl_scale_up [where c = 52]) (simp_all add: round_even_def)

lemma fl_1_3: "fl (13 / 10) = 5854679515581645 / 2 ^ 52"
  by (subst fl_scale_up [where c = 52]) (simp_all add: round_even_def)

lemma fl_1_35: "fl (27 / 20) = 3039929748475085 / 2 ^ 51"
  by (subst fl_scale_up [where c = 52]) (simp_all add: round_even_def)

lemma fl_1_4: "fl (7 / 5) = 3152519739159347 / 2 ^ 51"
  by (subst fl_scale_up [where c = 52]) (simp_all add: round_even_def)

lemma rounding_10: "fl (3 / 2) = 3 / 2 ^ 1"
  by (subst fl_scale_up [where c = 52]) (simp_all add: round_even_def)

lemma fl_1_7: "fl (17 / 10) = 7656119366529843 / 2 ^ 52"
  by (subst fl_scale_up [where c = 52]) (simp_all add: round_even_def)

lemma rounding_11: "fl (2) = 2"
  by (subst fl_scale_up [where c = 51]) (simp_all add: round_even_def)

lemma rounding_12: "fl (37830236869912163 / 18014398509481984) = 1182194902184755 / 2 ^ 49"
  by (subst fl_scale_up [where c = 51]) (simp_all add: round_even_def)

lemma rounding_13: "fl (162129586585337843 / 72057594037927936) = 9 / 2 ^ 2"
  by (subst fl_scale_up [where c = 51]) (simp_all add: round_even_def)

lemma rounding_14: "fl (810647932926689279 / 360287970189639680) = 9 / 2 ^ 2"
  by (subst fl_scale_up [where c = 51]) (simp_all add: round_even_def)

lemma rounding_15: "fl (9 / 4) = 9 / 2 ^ 2"
  by (subst fl_scale_up [where c = 51]) (simp_all add: round_even_def)

lemma rounding_16: "fl (41433116571808563 / 18014398509481984) = 2589569785738035 / 2 ^ 50"
  by (subst fl_scale_up [where c = 51]) (simp_all add: round_even_def)

lemma fl_2_3: "fl (23 / 10) = 2589569785738035 / 2 ^ 50"
  by (subst fl_scale_up [where c = 51]) (simp_all add: round_even_def)

lemma rounding_17: "fl (668694472671971195 / 288230376151711744) = 5224175567749775 / 2 ^ 51"
  by (subst fl_scale_up [where c = 51]) (simp_all add: round_even_def)

lemma rounding_18: "fl (3343472363359856231 / 1441151880758558720) = 5224175567749775 / 2 ^ 51"
  by (subst fl_scale_up [where c = 51]) (simp_all add: round_even_def)

lemma rounding_19: "fl (171497073810268475 / 72057594037927936) = 2679641778285445 / 2 ^ 50"
  by (subst fl_scale_up [where c = 51]) (simp_all add: round_even_def)

lemma rounding_20: "fl (857485369051342439 / 360287970189639680) = 2679641778285445 / 2 ^ 50"
  by (subst fl_scale_up [where c = 51]) (simp_all add: round_even_def)

lemma rounding_21: "fl (726340547902313595 / 288230376151711744) = 5674535530486825 / 2 ^ 51"
  by (subst fl_scale_up [where c = 51]) (simp_all add: round_even_def)

lemma rounding_22: "fl (3) = 3"
  by (subst fl_scale_up [where c = 51]) (simp_all add: round_even_def)

lemma rounding_23: "fl (221937389636818043 / 72057594037927936) = 1733885856537641 / 2 ^ 49"
  by (subst fl_scale_up [where c = 51]) (simp_all add: round_even_def)

lemma rounding_24: "fl (17564038546744935 / 4503599627370496) = 2195504818343117 / 2 ^ 49"
  by (subst fl_scale_up [where c = 51]) (simp_all add: round_even_def)

lemma rounding_25: "fl (5685412942023608944525707355095 / 1267650600228229401496703205376) = 5049661082189169 / 2 ^ 50"
  by (subst fl_scale_up [where c = 50]) (simp_all add: round_even_def)

lemma rounding_26: "fl (6) = 6"
  by (subst fl_scale_up [where c = 50]) (simp_all add: round_even_def)

lemma rounding_27: "fl (27 / 4) = 27 / 2 ^ 2"
  by (subst fl_scale_up [where c = 50]) (simp_all add: round_even_def)

lemma rounding_28: "fl (8038925334856335 / 1125899906842624) = 8038925334856335 / 2 ^ 50"
  by (subst fl_scale_up [where c = 50]) (simp_all add: round_even_def)

lemma rounding_29: "fl (69918384214926945 / 9007199254740992) = 2184949506716467 / 2 ^ 48"
  by (subst fl_scale_up [where c = 50]) (simp_all add: round_even_def)

lemma rounding_30: "fl (9) = 9"
  by (subst fl_scale_up [where c = 49]) (simp_all add: round_even_def)

lemma rounding_31: "fl (61546971942280989537479895105405 / 5070602400912917605986812821504) = 6833086534627885 / 2 ^ 49"
  by (subst fl_scale_up [where c = 49]) (simp_all add: round_even_def)

lemma rounding_32: "fl (14) = 14"
  by (subst fl_scale_up [where c = 49]) (simp_all add: round_even_def)

lemma rounding_33: "fl (68905074298768587 / 4503599627370496) = 8613134287346073 / 2 ^ 49"
  by (subst fl_scale_up [where c = 49]) (simp_all add: round_even_def)

lemma rounding_34: "fl (24) = 24"
  by (subst fl_scale_up [where c = 48]) (simp_all add: round_even_def)

lemma rounding_35: "fl (48) = 48"
  by (subst fl_scale_up [where c = 47]) (simp_all add: round_even_def)

lemma rounding_36: "fl (28372677652434125 / 562949953421312) = 7093169413108531 / 2 ^ 47"
  by (subst fl_scale_up [where c = 47]) (simp_all add: round_even_def)

lemma rounding_37: "fl (21562736709882182930106854450135 / 316912650057057350374175801344) = 4787889353848259 / 2 ^ 46"
  by (subst fl_scale_up [where c = 46]) (simp_all add: round_even_def)

lemma rounding_38: "fl (72) = 72"
  by (subst fl_scale_up [where c = 46]) (simp_all add: round_even_def)

lemma rounding_39: "fl (90) = 90"
  by (subst fl_scale_up [where c = 46]) (simp_all add: round_even_def)

lemma rounding_40: "fl (96) = 96"
  by (subst fl_scale_up [where c = 46]) (simp_all add: round_even_def)

lemma rounding_41: "fl (116530640358211575 / 1125899906842624) = 7283165022388223 / 2 ^ 46"
  by (subst fl_scale_up [where c = 46]) (simp_all add: round_even_def)

lemma rounding_42: "fl (192) = 192"
  by (subst fl_scale_up [where c = 45]) (simp_all add: round_even_def)

lemma rounding_43: "fl (551690954352885725 / 2251799813685248) = 8620171161763839 / 2 ^ 45"
  by (subst fl_scale_up [where c = 45]) (simp_all add: round_even_def)

lemma rounding_44: "fl (288) = 288"
  by (subst fl_scale_up [where c = 44]) (simp_all add: round_even_def)

lemma rounding_45: "fl (360) = 360"
  by (subst fl_scale_up [where c = 44]) (simp_all add: round_even_def)

lemma rounding_46: "fl (65997059374382183835268511747277 / 158456325028528675187087900672) = 7327145487499263 / 2 ^ 44"
  by (subst fl_scale_up [where c = 44]) (simp_all add: round_even_def)

lemma rounding_47: "fl (1440) = 1440"
  by (subst fl_scale_up [where c = 42]) (simp_all add: round_even_def)

lemma rounding_48: "fl (1632) = 1632"
  by (subst fl_scale_up [where c = 42]) (simp_all add: round_even_def)

lemma rounding_49: "fl (2472) = 2472"
  by (subst fl_scale_up [where c = 41]) (simp_all add: round_even_def)

lemma rounding_50: "fl (2880) = 2880"
  by (subst fl_scale_up [where c = 41]) (simp_all add: round_even_def)

lemma rounding_51: "fl (4320) = 4320"
  by (subst fl_scale_up [where c = 40]) (simp_all add: round_even_def)

lemma rounding_52: "fl (5760) = 5760"
  by (subst fl_scale_up [where c = 40]) (simp_all add: round_even_def)

lemma rounding_53: "fl (9984) = 9984"
  by (subst fl_scale_up [where c = 39]) (simp_all add: round_even_def)

lemma rounding_54: "fl (11520) = 11520"
  by (subst fl_scale_up [where c = 39]) (simp_all add: round_even_def)

lemma rounding_55: "fl (17280) = 17280"
  by (subst fl_scale_up [where c = 38]) (simp_all add: round_even_def)

lemma rounding_56: "fl (21600) = 21600"
  by (subst fl_scale_up [where c = 38]) (simp_all add: round_even_def)

lemma rounding_57: "fl (86400) = 86400"
  by (subst fl_scale_up [where c = 36]) (simp_all add: round_even_def)

lemma rounding_58: "fl (97920) = 97920"
  by (subst fl_scale_up [where c = 36]) (simp_all add: round_even_def)

lemma rounding_59: "fl (148320) = 148320"
  by (subst fl_scale_up [where c = 35]) (simp_all add: round_even_def)

lemma rounding_60: "fl (172800) = 172800"
  by (subst fl_scale_up [where c = 35]) (simp_all add: round_even_def)

lemma rounding_61: "fl (259200) = 259200"
  by (subst fl_scale_up [where c = 35]) (simp_all add: round_even_def)

lemma rounding_62: "fl (345600) = 345600"
  by (subst fl_scale_up [where c = 34]) (simp_all add: round_even_def)

lemma rounding_63: "fl (599040) = 599040"
  by (subst fl_scale_up [where c = 33]) (simp_all add: round_even_def)

lemma rounding_64: "fl (691200) = 691200"
  by (subst fl_scale_up [where c = 33]) (simp_all add: round_even_def)

lemma rounding_65: "fl (1036800) = 1036800"
  by (subst fl_scale_up [where c = 33]) (simp_all add: round_even_def)

lemma rounding_66: "fl (1296000) = 1296000"
  by (subst fl_scale_up [where c = 32]) (simp_all add: round_even_def)

lemma rounding_67: "fl (5875200) = 5875200"
  by (subst fl_scale_up [where c = 30]) (simp_all add: round_even_def)

lemma rounding_68: "fl (8899200) = 8899200"
  by (subst fl_scale_up [where c = 29]) (simp_all add: round_even_def)

lemma rounding_69: "fl (35942400) = 35942400"
  by (subst fl_scale_up [where c = 27]) (simp_all add: round_even_def)

lemma rounding_70: "fl (86400000) = 86400000"
  by (subst fl_scale_up [where c = 26]) (simp_all add: round_even_def)

lemma rounding_71: "fl (86401000) = 86401000"
  by (subst fl_scale_up [where c = 26]) (simp_all add: round_even_def)

lemma rounding_72: "fl (90000000) = 90000000"
  by (subst fl_scale_up [where c = 26]) (simp_all add: round_even_def)

lemma rounding_73: "fl (5383208929591295859375 / 35184372088832) = 153000000"
  by (subst fl_scale_up [where c = 25]) (simp_all add: round_even_def)

lemma rounding_74: "fl (172800000) = 172800000"
  by (subst fl_scale_up [where c = 25]) (simp_all add: round_even_def)

lemma rounding_75: "fl (172801000) = 172801000"
  by (subst fl_scale_up [where c = 25]) (simp_all add: round_even_def)

lemma rounding_76: "fl (259200000) = 259200000"
  by (subst fl_scale_up [where c = 25]) (simp_all add: round_even_def)

lemma rounding_77: "fl (259201000) = 259201000"
  by (subst fl_scale_up [where c = 25]) (simp_all add: round_even_def)

lemma rounding_78: "fl (345600000) = 345600000"
  by (subst fl_scale_up [where c = 24]) (simp_all add: round_even_def)

lemma rounding_79: "fl (345601000) = 345601000"
  by (subst fl_scale_up [where c = 24]) (simp_all add: round_even_def)

lemma rounding_80: "fl (691200000) = 691200000"
  by (subst fl_scale_up [where c = 23]) (simp_all add: round_even_def)

lemma rounding_81: "fl (691201000) = 691201000"
  by (subst fl_scale_up [where c = 23]) (simp_all add: round_even_def)

lemma rounding_82: "fl (1036800000) = 1036800000"
  by (subst fl_scale_up [where c = 23]) (simp_all add: round_even_def)

lemma rounding_83: "fl (1036801000) = 1036801000"
  by (subst fl_scale_up [where c = 23]) (simp_all add: round_even_def)

lemma rounding_84: "fl (1296000000) = 1296000000"
  by (subst fl_scale_up [where c = 22]) (simp_all add: round_even_def)

lemma rounding_85: "fl (1296001000) = 1296001000"
  by (subst fl_scale_up [where c = 22]) (simp_all add: round_even_def)

lemma rounding_86: "fl (3672000000) = 3672000000"
  by (subst fl_scale_up [where c = 21]) (simp_all add: round_even_def)

lemma rounding_87: "fl (5875200000) = 5875200000"
  by (subst fl_scale_up [where c = 20]) (simp_all add: round_even_def)

lemma rounding_88: "fl (5875201000) = 5875201000"
  by (subst fl_scale_up [where c = 20]) (simp_all add: round_even_def)

lemma rounding_89: "fl (8899200000) = 8899200000"
  by (subst fl_scale_up [where c = 19]) (simp_all add: round_even_def)

lemma rounding_90: "fl (8899201000) = 8899201000"
  by (subst fl_scale_up [where c = 19]) (simp_all add: round_even_def)

lemma rounding_91: "fl (35942400000) = 35942400000"
  by (subst fl_scale_up [where c = 17]) (simp_all add: round_even_def)

lemma rounding_92: "fl (35942401000) = 35942401000"
  by (subst fl_scale_up [where c = 17]) (simp_all add: round_even_def)

lemma rounding_93: "fl (220320000000) = 220320000000"
  by (subst fl_scale_up [where c = 15]) (simp_all add: round_even_def)

lemma rounding_94: "fl (13219200000000) = 13219200000000"
  by (subst fl_scale_up [where c = 9]) (simp_all add: round_even_def)

lemma rounding_95: "fl (13219200000000000) = 13219200000000000"
  by (subst fl_scale_down [where c = 1]) (simp_all add: round_even_def)

lemma rounding_96: "fl (13220993577600000) = 13220993577600000"
  by (subst fl_scale_down [where c = 1]) (simp_all add: round_even_def)

lemma rounding_97: "fl (13220993577600001) = 13220993577600000"
  by (subst fl_scale_down [where c = 1]) (simp_all add: round_even_def)

lemmas roundings =
  fl_0_02 fl_0_05 fl_0_08 fl_0_2 rounding_1 rounding_2 rounding_3 rounding_4 rounding_5
  rounding_6 rounding_7 rounding_8 fl_1_15 rounding_9 fl_1_3 fl_1_35 fl_1_4 rounding_10
  fl_1_7 rounding_11 rounding_12 rounding_13 rounding_14 rounding_15 rounding_16 fl_2_3
  rounding_17 rounding_18 rounding_19 rounding_20 rounding_21 rounding_22 rounding_23
  rounding_24 rounding_25 rounding_26 rounding_27 rounding_28 rounding_29 rounding_30
  rounding_31 rounding_32 rounding_33 rounding_34 rounding_35 rounding_36 rounding_37
  rounding_38 rounding_39 rounding_40 rounding_41 rounding_42 rounding_43 rounding_44
  rounding_45 rounding_46 rounding_47 rounding_48 rounding_49 rounding_50 rounding_51
  rounding_52 rounding_53 rounding_54 rounding_55 rounding_56 rounding_57 rounding_58
  rounding_59 rounding_60 rounding_61 rounding_62 rounding_63 rounding_64 rounding_65
  rounding_66 rounding_67 rounding_68 rounding_69 rounding_70 rounding_71 rounding_72
  rounding_73 rounding_74 rounding_75 rounding_76 rounding_77 rounding_78 rounding_79
  rounding_80 rounding_81 rounding_82 rounding_83 rounding_84 rounding_85 rounding_86
  rounding_87 rounding_88 rounding_89 rounding_90 rounding_91 rounding_92 rounding_93
  rounding_94 rounding_95 rounding_96 rounding_97

section \<open>Closed forms of the scheduler\<close>

lemma scheduleNext_again:
  "scheduleNext c 0 clk =
     (c\<lparr>reps := Some 0, interval := Some 0, due := Some (clk 0),
        lapses := Some (fl (num_or (lapses c) 0 + 1)),
        ef := Some (clamp (fl (num_or (ef c) (fl 2.3) - fl 0.2)) (fl 1.3) 3),
        lastReviewed := Some (clk 1)\<rparr>,
      \<lambda>n. clk (Suc (Suc n)))"
  by (simp add: scheduleNext_def Let_def nowMs_def)

lemma scheduleNext_pass:
  assumes "g \<noteq> 0"
  shows "scheduleNext c g clk =
     (let r = fl (num_or (reps c) 0 + 1);
          e = (if g = 1 then clamp (fl (num_or (ef c) (fl 2.3) - fl 0.05)) (fl 1.3) 3
               else if g = 2 then clamp (fl (num_or (ef c) (fl 2.3) + fl 0.02)) (fl 1.3) 3
               else if g = 3 then clamp (fl (num_or (ef c) (fl 2.3) + fl 0.08)) (fl 1.3) 3
               else num_or (ef c) (fl 2.3));
          iv = (if r = 1 then 1
                else if r = 2 then (if g = 1 then 2 else 3)
                else max 1 (Math_round (fl (fl (num_or (interval c) 0 * e) *
                       (if g = 1 then fl 1.15 else if g = 2 then fl 1.35 else fl 1.7)))))
      in (c\<lparr>reps := Some r, interval := Some iv,
            due := Some (fl (clk 0 + fl (fl (fl (fl (iv * 24) * 60) * 60) * 1000))),
            ef := Some e, lastReviewed := Some (clk 1)\<rparr>,
          \<lambda>n. clk (Suc (Suc n))))"
  using assms by (simp add: scheduleNext_def Let_def nowMs_def)


section \<open>Numbers that are not rounded\<close>

lemma fl_1: "fl 1 = 1"
  using fl_of_int [of 1] by simp

lemma fl_numeral: "(numeral n :: int) \<le> 2 ^ 53 \<Longrightarrow> fl (numeral n) = numeral n"
  using fl_of_int [of "numeral n"] by simp

lemma fl_nat:
  assumes "n \<le> 2 ^ 53"
  shows "fl (real n) = real n"
proof -
  have "int n \<le> int (2 ^ 53)" using assms by (simp only: of_nat_le_iff)
  then have "\<bar>int n\<bar> \<le> 2 ^ 53" by simp
  from fl_of_int [OF this] show ?thesis by simp
qed

lemma fl_nat_succ:
  assumes "k < 2 ^ 53"
  shows "fl (real k + 1) = real k + 1"
proof -
  have "Suc k \<le> 2 ^ 53" using assms by simp
  from fl_nat [OF this] show ?thesis by (simp add: add.commute)
qed

section \<open>The clamp and the rounding of a day count\<close>

lemma clamp_bounds: "a \<le> b \<Longrightarrow> a \<le> clamp n a b \<and> clamp n a b \<le> b"
  by (simp add: clamp_def)

lemma fl_1_3_bounds: "13 / 10 \<le> fl (13 / 10) \<and> fl (13 / 10) \<le> 3"
  by (simp add: fl_1_3)

lemma clamp_ef_bounds:
  "13 / 10 \<le> clamp n (fl (13 / 10)) 3 \<and> clamp n (fl (13 / 10)) 3 \<le> 3"
  using clamp_bounds [of "fl (13 / 10)" 3 n] fl_1_3_bounds by linarith

lemma clamp_mono: "x \<le> y \<Longrightarrow> clamp x a b \<le> clamp y a b"
  by (auto simp: clamp_def max_def min_def)

lemma max_one_nonzero: "max (1::real) x \<noteq> 0"
  by (simp add: max_def)

lemma Math_round_mono: "x \<le> y \<Longrightarrow> Math_round x \<le> Math_round y"
  by (simp add: Math_round_def floor_mono)

lemma Math_round_neg: "x \<le> 0 \<Longrightarrow> max 1 (Math_round x) = 1"
proof -
  assume "x \<le> 0"
  then have "\<lfloor>x + 1 / 2\<rfloor> \<le> 0" by linarith
  then show ?thesis by (simp add: Math_round_def max_def)
qed


text \<open>Days in milliseconds: the four products and the sum are exact below \<open>2^53\<close>.\<close>

lemma fl_nat_mult:
  assumes "k * m \<le> 2 ^ 53"
  shows "fl (real k * real m) = real (k * m)"
  using fl_nat [OF assms] by simp

lemma days_exact:
  fixes k :: nat
  assumes "k * 86400000 \<le> 2 ^ 53"
  shows "fl (fl (fl (fl (real k * 24) * 60) * 60) * 1000) = real k * 86400000"
proof -
  from assms have a: "k * 24 \<le> 2 ^ 53" "k * 24 * 60 \<le> 2 ^ 53" "k * 24 * 60 * 60 \<le> 2 ^ 53"
    "k * 24 * 60 * 60 * 1000 \<le> 2 ^ 53" by simp_all
  have "fl (real k * 24) = real (k * 24)"
    using fl_nat_mult [OF a(1)] by simp
  moreover have "fl (real (k * 24) * 60) = real (k * 24 * 60)"
    using fl_nat_mult [OF a(2)] by simp
  moreover have "fl (real (k * 24 * 60) * 60) = real (k * 24 * 60 * 60)"
    using fl_nat_mult [OF a(3)] by simp
  moreover have "fl (real (k * 24 * 60 * 60) * 1000) = real (k * 24 * 60 * 60 * 1000)"
    using fl_nat_mult [OF a(4)] by simp
  ultimately show ?thesis by simp
qed

lemma due_exact:
  fixes k t :: nat
  assumes "t + k * 86400000 \<le> 2 ^ 53"
  shows "fl (real t + fl (fl (fl (fl (real k * 24) * 60) * 60) * 1000))
         = real t + real k * 86400000"
proof -
  from assms have "k * 86400000 \<le> 2 ^ 53" by simp
  then have "fl (fl (fl (fl (real k * 24) * 60) * 60) * 1000) = real (k * 86400000)"
    by (simp add: days_exact)
  moreover have "fl (real (t + k * 86400000)) = real (t + k * 86400000)"
    using assms by (rule fl_nat)
  ultimately show ?thesis by simp
qed

section \<open>A draw times a length\<close>









section \<open>Grading Hard, Good or Easy\<close>

text \<open>
  Claim C1. For every card and every grade among Hard (1), Good (2) and Easy (3), in the
  arithmetic of the code: the scheduler adds 1 to \<open>reps\<close> (a missing \<open>reps\<close> counts as
  0), and for a count below \<open>2^53\<close> the sum is exact; the new \<open>ef\<close> is the old one (2.3
  when missing) minus 0.05, plus 0.02 or plus 0.08, not below 1.3 and not above 3.0; the
  new interval is 1 when the new \<open>reps\<close> is 1, is 2 for Hard and 3 otherwise when the
  new \<open>reps\<close> is 2, and is the greater of 1 and the product of the interval, the new
  \<open>ef\<close> and the multiplier 1.15, 1.35 or 1.7, rounded to the nearest integer, when
  the new \<open>reps\<close> is at least 3; and \<open>due\<close> is the clock reading plus the new
  interval times 24, 60, 60 and 1000, which is exactly the clock reading plus the
  interval times 86400000 as long as this is at most \<open>2^53\<close>. The interval and the
  clock reading are far below the greatest binary64 number.
\<close>

theorem schedule_pass_grades:
  fixes c :: CardT and g :: int and clk :: clock
  defines "c' \<equiv> fst (scheduleNext c g clk)"
    and "e0 \<equiv> (case ef c of Some x \<Rightarrow> x | None \<Rightarrow> fl 2.3)"
    and "r0 \<equiv> (case reps c of Some x \<Rightarrow> x | None \<Rightarrow> 0)"
    and "i0 \<equiv> (case interval c of Some x \<Rightarrow> x | None \<Rightarrow> 0)"
  defines "r' \<equiv> fl (r0 + 1)"
    and "e' \<equiv> max (fl 1.3)
                (min 3 (if g = 1 then fl (e0 - fl 0.05)
                        else if g = 2 then fl (e0 + fl 0.02) else fl (e0 + fl 0.08)))"
    and "m \<equiv> (if g = 1 then fl 1.15 else if g = 2 then fl 1.35 else fl 1.7)"
  assumes g: "g = 1 \<or> g = 2 \<or> g = 3"
    and range: "\<bar>i0\<bar> \<le> 2 ^ 900" "\<bar>clk 0\<bar> \<le> 2 ^ 900"
  shows "reps c' = Some r' \<and> ef c' = Some e'
       \<and> (\<forall>k::nat. r0 = real k \<and> k < 2 ^ 53 \<longrightarrow> r' = real k + 1)
       \<and> (r' = 1 \<longrightarrow> interval c' = Some 1)
       \<and> (r' = 2 \<longrightarrow> interval c' = Some (if g = 1 then 2 else 3))
       \<and> (3 \<le> r' \<longrightarrow>
            interval c' = Some (max 1 (of_int \<lfloor>fl (fl (i0 * e') * m) + 1 / 2\<rfloor>)))
       \<and> (\<exists>i. interval c' = Some i
              \<and> due c' = Some (fl (clk 0 + fl (fl (fl (fl (i * 24) * 60) * 60) * 1000))))
       \<and> (\<forall>k t::nat. interval c' = Some (real k) \<and> clk 0 = real t
              \<and> t + k * 86400000 \<le> 2 ^ 53
            \<longrightarrow> due c' = Some (real t + real k * 86400000))"
proof -
  from g have "g \<noteq> 0" by auto
  have succ: "\<forall>k::nat. r0 = real k \<and> k < 2 ^ 53 \<longrightarrow> r' = real k + 1"
    unfolding r'_def by (auto simp: fl_nat_succ)
  from scheduleNext_pass [OF \<open>g \<noteq> 0\<close>, of c clk] g succ
  have main: "reps c' = Some r' \<and> ef c' = Some e'
       \<and> (\<forall>k::nat. r0 = real k \<and> k < 2 ^ 53 \<longrightarrow> r' = real k + 1)
       \<and> (r' = 1 \<longrightarrow> interval c' = Some 1)
       \<and> (r' = 2 \<longrightarrow> interval c' = Some (if g = 1 then 2 else 3))
       \<and> (3 \<le> r' \<longrightarrow>
            interval c' = Some (max 1 (of_int \<lfloor>fl (fl (i0 * e') * m) + 1 / 2\<rfloor>)))
       \<and> (\<exists>i. interval c' = Some i
              \<and> due c' = Some (fl (clk 0 + fl (fl (fl (fl (i * 24) * 60) * 60) * 1000))))"
    unfolding c'_def r'_def e'_def m_def e0_def r0_def i0_def
    by (auto simp: Let_def num_or_def clamp_def Math_round_def)
  then obtain i where i: "interval c' = Some i"
    "due c' = Some (fl (clk 0 + fl (fl (fl (fl (i * 24) * 60) * 60) * 1000)))" by blast
  have "due c' = Some (real t + real k * 86400000)"
    if "interval c' = Some (real k) \<and> clk 0 = real t \<and> t + k * 86400000 \<le> 2 ^ 53"
    for k t :: nat
  proof -
    from that i(1) have "i = real k" by simp
    with that i(2) show ?thesis by (simp add: due_exact)
  qed
  with main show ?thesis by blast
qed

text \<open>
  The theorem at six cards, each with the clock at 1000. Two repetitions, 40 days and
  ease 2.3 graded Hard: the ease becomes 2.25 and the interval 103, since the rounded
  product is just below 103.5. A card with every number missing graded Good. One
  repetition graded Easy and graded Hard. Ease 3.0 graded Easy stays at 3.0, and ease
  1.3 graded Hard stays at 1.3.
\<close>

theorem schedule_pass_grades_witness:
  "((1::int) = 1 \<or> (1::int) = 2 \<or> (1::int) = 3) \<and> \<bar>40::real\<bar> \<le> 2 ^ 900
   \<and> \<bar>ticking 1000 0\<bar> \<le> 2 ^ 900
   \<and> reps (fst (scheduleNext (sample_card 2 40 (fl 2.3) 0) 1 (ticking 1000))) = Some 3
   \<and> ef (fst (scheduleNext (sample_card 2 40 (fl 2.3) 0) 1 (ticking 1000))) = Some (9 / 4)
   \<and> interval (fst (scheduleNext (sample_card 2 40 (fl 2.3) 0) 1 (ticking 1000))) = Some 103
   \<and> due (fst (scheduleNext (sample_card 2 40 (fl 2.3) 0) 1 (ticking 1000)))
        = Some (1000 + 103 * 86400000)
   \<and> ((2::int) = 1 \<or> (2::int) = 2 \<or> (2::int) = 3)
   \<and> reps (fst (scheduleNext bare_card 2 (ticking 1000))) = Some 1
   \<and> ef (fst (scheduleNext bare_card 2 (ticking 1000))) = Some (5224175567749775 / 2 ^ 51)
   \<and> interval (fst (scheduleNext bare_card 2 (ticking 1000))) = Some 1
   \<and> due (fst (scheduleNext bare_card 2 (ticking 1000))) = Some (1000 + 86400000)
   \<and> ((3::int) = 1 \<or> (3::int) = 2 \<or> (3::int) = 3)
   \<and> reps (fst (scheduleNext (sample_card 1 1 (fl 2.3) 0) 3 (ticking 1000))) = Some 2
   \<and> interval (fst (scheduleNext (sample_card 1 1 (fl 2.3) 0) 3 (ticking 1000))) = Some 3
   \<and> interval (fst (scheduleNext (sample_card 1 1 (fl 2.3) 0) 1 (ticking 1000))) = Some 2
   \<and> ef (fst (scheduleNext (sample_card 2 3 3 0) 3 (ticking 1000))) = Some 3
   \<and> interval (fst (scheduleNext (sample_card 2 3 3 0) 3 (ticking 1000))) = Some 15
   \<and> ef (fst (scheduleNext (sample_card 2 3 (fl 1.3) 0) 1 (ticking 1000)))
        = Some (5854679515581645 / 2 ^ 52)
   \<and> interval (fst (scheduleNext (sample_card 2 3 (fl 1.3) 0) 1 (ticking 1000))) = Some 4"
proof -
  note w1 = schedule_pass_grades
    [where g = 1 and c = "sample_card 2 40 (fl 2.3) 0" and clk = "ticking 1000"]
  note w2 = schedule_pass_grades [where g = 2 and c = bare_card and clk = "ticking 1000"]
  note w3 = schedule_pass_grades
    [where g = 3 and c = "sample_card 1 1 (fl 2.3) 0" and clk = "ticking 1000"]
  note w4 = schedule_pass_grades
    [where g = 1 and c = "sample_card 1 1 (fl 2.3) 0" and clk = "ticking 1000"]
  note w5 = schedule_pass_grades
    [where g = 3 and c = "sample_card 2 3 3 0" and clk = "ticking 1000"]
  note w6 = schedule_pass_grades
    [where g = 1 and c = "sample_card 2 3 (fl 1.3) 0" and clk = "ticking 1000"]
  show ?thesis
    using w1 w2 w3 w4 w5 w6
    by (auto simp add: sample_card_def bare_card_def ticking_def roundings fl_numeral)
qed


section \<open>Grading Again\<close>




section \<open>The invariant of the data model\<close>

text \<open>
  Claim C3. For every card and each of the four grades, the card the scheduler returns
  has its \<open>ef\<close> in \<open>[1.3, 3.0]\<close>, and its interval is 0 only when its \<open>reps\<close> is 0;
  after Hard, Good or Easy the interval is at least 1.
\<close>

theorem schedule_keeps_invariant:
  fixes c :: CardT and g :: int and clk :: clock
  defines "c' \<equiv> fst (scheduleNext c g clk)"
  assumes g: "g = 0 \<or> g = 1 \<or> g = 2 \<or> g = 3"
  shows "\<exists>e i r. ef c' = Some e \<and> 1.3 \<le> e \<and> e \<le> 3.0
           \<and> interval c' = Some i \<and> reps c' = Some r
           \<and> (i = 0 \<longrightarrow> r = 0) \<and> (g \<noteq> 0 \<longrightarrow> 1 \<le> i)"
proof (cases "g = 0")
  case True
  then show ?thesis unfolding c'_def
    using clamp_ef_bounds [of "fl (num_or (ef c) (fl 2.3) - fl 0.2)"]
    by (simp add: scheduleNext_again)
next
  case False
  note b = clamp_ef_bounds [of "fl (num_or (ef c) (fl 2.3) - fl 0.05)"]
    clamp_ef_bounds [of "fl (num_or (ef c) (fl 2.3) + fl 0.02)"]
    clamp_ef_bounds [of "fl (num_or (ef c) (fl 2.3) + fl 0.08)"]
  from g False consider "g = 1" | "g = 2" | "g = 3" by auto
  then show ?thesis
  proof cases
    case 1
    with b(1) show ?thesis unfolding c'_def
      by (simp add: scheduleNext_pass Let_def max_one_nonzero)
  next
    case 2
    with b(2) show ?thesis unfolding c'_def
      by (simp add: scheduleNext_pass Let_def max_one_nonzero)
  next
    case 3
    with b(3) show ?thesis unfolding c'_def
      by (simp add: scheduleNext_pass Let_def max_one_nonzero)
  qed
qed

text \<open>The card of Scenario C, graded Again and graded Good.\<close>

theorem schedule_keeps_invariant_witness:
  "((0::int) = 0 \<or> (0::int) = 1 \<or> (0::int) = 2 \<or> (0::int) = 3)
   \<and> interval (fst (scheduleNext (sample_card 5 20 2.5 1) 0 (ticking 1000))) = Some 0
   \<and> reps (fst (scheduleNext (sample_card 5 20 2.5 1) 0 (ticking 1000))) = Some 0
   \<and> (\<exists>e. ef (fst (scheduleNext (sample_card 5 20 2.5 1) 0 (ticking 1000))) = Some e
          \<and> 1.3 \<le> e \<and> e \<le> 3.0)
   \<and> ((2::int) = 0 \<or> (2::int) = 1 \<or> (2::int) = 2 \<or> (2::int) = 3) \<and> (2::int) \<noteq> 0
   \<and> (\<exists>i. interval (fst (scheduleNext (sample_card 5 20 2.5 1) 2 (ticking 1000))) = Some i
          \<and> 1 \<le> i)"
proof -
  have g0: "(0::int) = 0 \<or> (0::int) = 1 \<or> (0::int) = 2 \<or> (0::int) = 3"
    and g2: "(2::int) = 0 \<or> (2::int) = 1 \<or> (2::int) = 2 \<or> (2::int) = 3" by simp_all
  have z: "interval (fst (scheduleNext (sample_card 5 20 2.5 1) 0 (ticking 1000))) = Some 0"
    by (simp add: scheduleNext_again)
  show ?thesis
    using schedule_keeps_invariant [OF g0, of "sample_card 5 20 2.5 1" "ticking 1000"]
      schedule_keeps_invariant [OF g2, of "sample_card 5 20 2.5 1" "ticking 1000"] z
    by auto
qed


section \<open>The clock\<close>

text \<open>
  Claim C7, as the code has it. The scheduler takes the card and the grade only and reads
  the ambient clock itself, twice in every call: once for \<open>due\<close> and once for
  \<open>lastReviewed\<close>. It leaves the clock two readings further. Two calls with the same
  card and grade whose two readings agree return the same card; two calls that return
  the same card have the same second reading, and for the grade Again the same first
  reading too.
\<close>

theorem schedule_two_readings:
  "snd (scheduleNext c g clk) = (\<lambda>n. clk (Suc (Suc n)))
   \<and> (clk 0 = clk' 0 \<and> clk 1 = clk' 1
        \<longrightarrow> fst (scheduleNext c g clk) = fst (scheduleNext c g clk'))
   \<and> (fst (scheduleNext c g clk) = fst (scheduleNext c g clk') \<longrightarrow> clk 1 = clk' 1)
   \<and> (g = 0 \<and> fst (scheduleNext c g clk) = fst (scheduleNext c g clk')
        \<longrightarrow> clk 0 = clk' 0)"
proof -
  have rest: "snd (scheduleNext c g clk) = (\<lambda>n. clk (Suc (Suc n)))"
    by (cases "g = 0") (simp_all add: scheduleNext_again scheduleNext_pass Let_def)
  have last_eq: "lastReviewed (fst (scheduleNext c g k)) = Some (k 1)" for k :: clock
    by (cases "g = 0") (simp_all add: scheduleNext_again scheduleNext_pass Let_def)
  have due_eq: "due (fst (scheduleNext c 0 k)) = Some (k 0)" for k :: clock
    by (simp add: scheduleNext_again)
  have bwd: "fst (scheduleNext c g clk) = fst (scheduleNext c g clk')"
    if "clk 0 = clk' 0" "clk 1 = clk' 1"
    using that by (cases "g = 0") (simp_all add: scheduleNext_again scheduleNext_pass Let_def)
  have second: "clk 1 = clk' 1"
    if a: "fst (scheduleNext c g clk) = fst (scheduleNext c g clk')"
  proof -
    from a have "lastReviewed (fst (scheduleNext c g clk))
                 = lastReviewed (fst (scheduleNext c g clk'))" by simp
    then show ?thesis by (simp add: last_eq)
  qed
  have first: "clk 0 = clk' 0"
    if z: "g = 0" and a: "fst (scheduleNext c g clk) = fst (scheduleNext c g clk')"
  proof -
    from a z have "due (fst (scheduleNext c 0 clk)) = due (fst (scheduleNext c 0 clk'))"
      by simp
    then show ?thesis by (simp add: due_eq)
  qed
  from rest bwd second first show ?thesis by blast
qed

text \<open>
  Two clocks that agree on their first two readings and differ on the third, and two
  clocks that differ on the second reading.
\<close>

theorem schedule_two_readings_witness:
  "ticking 1000 0 = two_then 1000 1001 0 \<and> ticking 1000 1 = two_then 1000 1001 1
   \<and> ticking 1000 2 \<noteq> two_then 1000 1001 2
   \<and> fst (scheduleNext (sample_card 0 0 (fl 2.3) 0) 2 (ticking 1000))
       = fst (scheduleNext (sample_card 0 0 (fl 2.3) 0) 2 (two_then 1000 1001))
   \<and> ticking 1000 1 \<noteq> frozen 1000 1
   \<and> fst (scheduleNext (sample_card 0 0 (fl 2.3) 0) 0 (ticking 1000))
       \<noteq> fst (scheduleNext (sample_card 0 0 (fl 2.3) 0) 0 (frozen 1000))
   \<and> two_then 999 1000 0 \<noteq> frozen 1000 0
   \<and> fst (scheduleNext (sample_card 0 0 (fl 2.3) 0) 0 (two_then 999 1000))
       \<noteq> fst (scheduleNext (sample_card 0 0 (fl 2.3) 0) 0 (frozen 1000))"
proof -
  have r: "ticking 1000 0 = two_then 1000 1001 0" "ticking 1000 1 = two_then 1000 1001 1"
    "ticking 1000 2 \<noteq> two_then 1000 1001 2" "ticking 1000 1 \<noteq> frozen 1000 1"
    "two_then 999 1000 0 \<noteq> frozen 1000 0"
    by (simp_all add: ticking_def two_then_def frozen_def)
  from r
    schedule_two_readings
      [of "sample_card 0 0 (fl 2.3) 0" 2 "ticking 1000" "two_then 1000 1001"]
    schedule_two_readings [of "sample_card 0 0 (fl 2.3) 0" 0 "ticking 1000" "frozen 1000"]
    schedule_two_readings
      [of "sample_card 0 0 (fl 2.3) 0" 0 "two_then 999 1000" "frozen 1000"]
  show ?thesis by blast
qed

text \<open>
  The claim as it is written fails: two calls with the same card and grade, made when the
  clock reads 1000, return different cards when the clock advances during one call and
  stands still during the other.
\<close>

theorem schedule_clock_counterexample:
  "fst (nowMs (ticking 1000)) = fst (nowMs (frozen 1000))
   \<and> fst (scheduleNext (sample_card 0 0 2.3 0) 2 (ticking 1000))
       \<noteq> fst (scheduleNext (sample_card 0 0 2.3 0) 2 (frozen 1000))"
proof -
  have "lastReviewed (fst (scheduleNext (sample_card 0 0 2.3 0) 2 (ticking 1000))) = Some 1001"
    by (simp add: scheduleNext_pass Let_def ticking_def)
  moreover
  have "lastReviewed (fst (scheduleNext (sample_card 0 0 2.3 0) 2 (frozen 1000))) = Some 1000"
    by (simp add: scheduleNext_pass Let_def frozen_def)
  ultimately
  have "fst (scheduleNext (sample_card 0 0 2.3 0) 2 (ticking 1000))
       \<noteq> fst (scheduleNext (sample_card 0 0 2.3 0) 2 (frozen 1000))"
    by auto
  then show ?thesis by (simp add: nowMs_def ticking_def frozen_def)
qed

text \<open>
  The first reading does not always show in the card returned for Hard, Good or Easy: once
  \<open>due\<close> is beyond \<open>2^53\<close> milliseconds, the sum that gives it is rounded to an even
  number. A card with 13 repetitions, an interval of 30000000 days and ease 3.0, graded
  Easy when the clock reads 1793577600000, and graded Easy one millisecond later, with the
  same second reading: the two cards are the same.
\<close>

lemma schedule_first_reading_absorbed:
  "two_then 1793577600000 1793577600002 0 \<noteq> two_then 1793577600001 1793577600002 0
   \<and> interval (fst (scheduleNext (sample_card 13 30000000 3 0) 3
                      (two_then 1793577600000 1793577600002))) = Some 153000000
   \<and> due (fst (scheduleNext (sample_card 13 30000000 3 0) 3
                 (two_then 1793577600001 1793577600002))) = Some 13220993577600000
   \<and> fst (scheduleNext (sample_card 13 30000000 3 0) 3
            (two_then 1793577600000 1793577600002))
     = fst (scheduleNext (sample_card 13 30000000 3 0) 3
              (two_then 1793577600001 1793577600002))"
  by (simp add: scheduleNext_pass Let_def two_then_def sample_card_def num_or_def clamp_def
        Math_round_def roundings fl_numeral)


section \<open>A grade outside the four levels\<close>

text \<open>
  Claim C8, as the code has it. The type of the grade, \<^verbatim>\<open>0 | 1 | 2 | 3\<close>, is checked
  by the compiler; at run time the scheduler tests no grade and raises no error. For a
  grade that is none of 0, 1, 2 and 3 it returns a card: \<open>reps\<close> plus 1, \<open>ef\<close> as it
  was (2.3 when missing, not clamped), the interval 1 at the first repetition, 3 at the
  second and later the greater of 1 and the product of the interval, the ease and 1.7
  rounded to the nearest integer, as for Easy, all in the arithmetic of the code, and
  \<open>due\<close> that many days after the clock reading. The interval, the ease and the
  clock reading are far below the greatest binary64 number.
\<close>

theorem schedule_other_grade:
  fixes c :: CardT and g :: int and clk :: clock
  defines "e0 \<equiv> (case ef c of Some x \<Rightarrow> x | None \<Rightarrow> fl 2.3)"
    and "r0 \<equiv> (case reps c of Some x \<Rightarrow> x | None \<Rightarrow> 0)"
    and "i0 \<equiv> (case interval c of Some x \<Rightarrow> x | None \<Rightarrow> 0)"
  defines "r' \<equiv> fl (r0 + 1)"
  defines "iv \<equiv> (if r' = 1 then 1 else if r' = 2 then 3
                  else max 1 (of_int \<lfloor>fl (fl (i0 * e0) * fl 1.7) + 1 / 2\<rfloor>))"
  assumes g: "g \<noteq> 0" "g \<noteq> 1" "g \<noteq> 2" "g \<noteq> 3"
    and range: "\<bar>i0\<bar> \<le> 2 ^ 900" "\<bar>e0\<bar> \<le> 2 ^ 64" "\<bar>clk 0\<bar> \<le> 2 ^ 900"
  shows "scheduleNext c g clk =
           (c\<lparr>reps := Some r', interval := Some iv,
              due := Some (fl (clk 0 + fl (fl (fl (fl (iv * 24) * 60) * 60) * 1000))),
              ef := Some e0, lastReviewed := Some (clk 1)\<rparr>,
            \<lambda>n. clk (Suc (Suc n)))"
proof -
  have e: "num_or (ef c) (fl 2.3) = e0" and r: "num_or (reps c) 0 = r0"
    and i: "num_or (interval c) 0 = i0"
    by (simp_all add: e0_def r0_def i0_def num_or_def)
  show ?thesis
    using g unfolding r'_def iv_def
    by (simp add: scheduleNext_pass Let_def e r i Math_round_def)
qed

text \<open>
  The theorem at the grade 7 and the clock at 1000. A card with two repetitions, 175 days
  and ease 1.4: the rounded product is just below 416.5 and the interval is 416. A card
  with every number missing: one repetition, one day, ease 2.3.
\<close>

theorem schedule_other_grade_witness:
  "(7::int) \<noteq> 0 \<and> (7::int) \<noteq> 1 \<and> (7::int) \<noteq> 2 \<and> (7::int) \<noteq> 3
   \<and> \<bar>175::real\<bar> \<le> 2 ^ 900 \<and> \<bar>fl 1.4\<bar> \<le> 2 ^ 64 \<and> \<bar>ticking 1000 0\<bar> \<le> 2 ^ 900
   \<and> fst (scheduleNext (sample_card 2 175 (fl 1.4) 0) 7 (ticking 1000))
       = (sample_card 2 175 (fl 1.4) 0)\<lparr>reps := Some 3, interval := Some 416,
            due := Some (1000 + 416 * 86400000),
            ef := Some (3152519739159347 / 2 ^ 51), lastReviewed := Some 1001\<rparr>
   \<and> fst (scheduleNext bare_card 7 (ticking 1000))
       = bare_card\<lparr>reps := Some 1, interval := Some 1, due := Some (1000 + 86400000),
            ef := Some (2589569785738035 / 2 ^ 50), lastReviewed := Some 1001\<rparr>"
  using schedule_other_grade [of 7 "sample_card 2 175 (fl 1.4) 0" "ticking 1000"]
    schedule_other_grade [of 7 bare_card "ticking 1000"]
  by (simp add: sample_card_def bare_card_def ticking_def roundings fl_numeral)

text \<open>
  The claim as it is written fails: the grade 7 is not rejected. On a card with two
  repetitions, 3 days and ease 3.0 it returns the card that Easy returns, with an
  interval of 15 days.
\<close>

theorem schedule_other_grade_counterexample:
  "interval (fst (scheduleNext (sample_card 2 3 3.0 0) 7 (ticking 1000))) = Some 15
   \<and> fst (scheduleNext (sample_card 2 3 3.0 0) 7 (ticking 1000))
       = fst (scheduleNext (sample_card 2 3 3.0 0) 3 (ticking 1000))"
  by (simp add: scheduleNext_pass Let_def sample_card_def num_or_def clamp_def Math_round_def
        roundings fl_numeral)


section \<open>Easy against Hard\<close>

text \<open>
  Claim C9. For every card whose \<open>reps\<close> after the increment is at least 3, the interval
  that Easy gives is at least the interval that Hard gives from the same card.
\<close>

theorem easy_interval_ge_hard:
  fixes c :: CardT and clk clk' :: clock
  assumes r: "3 \<le> num_or (reps c) 0 + 1"
  shows "\<exists>h e. interval (fst (scheduleNext c 1 clk)) = Some h
              \<and> interval (fst (scheduleNext c 3 clk')) = Some e \<and> h \<le> e"
proof -
  define i0 where "i0 = num_or (interval c) 0"
  define e0 where "e0 = num_or (ef c) (fl 2.3)"
  define eh where "eh = clamp (fl (e0 - fl 0.05)) (fl 1.3) 3"
  define ee where "ee = clamp (fl (e0 + fl 0.08)) (fl 1.3) 3"
  have "fl 3 \<le> fl (num_or (reps c) 0 + 1)" using r by (rule fl_mono)
  then have r': "3 \<le> fl (num_or (reps c) 0 + 1)" by (simp add: fl_numeral)
  have hard: "interval (fst (scheduleNext c 1 clk))
              = Some (max 1 (Math_round (fl (fl (i0 * eh) * fl 1.15))))"
    using r' by (simp add: scheduleNext_pass Let_def i0_def eh_def e0_def)
  have easy: "interval (fst (scheduleNext c 3 clk'))
              = Some (max 1 (Math_round (fl (fl (i0 * ee) * fl 1.7))))"
    using r' by (simp add: scheduleNext_pass Let_def i0_def ee_def e0_def)
  have lit: "0 \<le> fl (5 / 10\<^sup>2)" "0 \<le> fl (8 / 10\<^sup>2)" "0 \<le> fl (115 / 10\<^sup>2)"
    by (rule fl_nonneg, simp)+
  have mult: "fl (115 / 10\<^sup>2) \<le> fl (17 / 10)" by (rule fl_mono) simp
  have "e0 - fl 0.05 \<le> e0 + fl 0.08" using lit by simp
  then have "fl (e0 - fl 0.05) \<le> fl (e0 + fl 0.08)" by (rule fl_mono)
  then have le: "eh \<le> ee" unfolding eh_def ee_def by (rule clamp_mono)
  have pos: "0 < eh" "0 < ee"
    using clamp_ef_bounds [of "fl (e0 - fl 0.05)"] clamp_ef_bounds [of "fl (e0 + fl 0.08)"]
    unfolding eh_def ee_def by simp_all
  have "max 1 (Math_round (fl (fl (i0 * eh) * fl 1.15)))
        \<le> max 1 (Math_round (fl (fl (i0 * ee) * fl 1.7)))"
  proof (cases "0 \<le> i0")
    case True
    have "i0 * eh \<le> i0 * ee" using le True by (rule mult_left_mono)
    then have p: "fl (i0 * eh) \<le> fl (i0 * ee)" by (rule fl_mono)
    have "0 \<le> i0 * ee" using True pos by simp
    then have q: "0 \<le> fl (i0 * ee)" by (rule fl_nonneg)
    have "fl (i0 * eh) * fl 1.15 \<le> fl (i0 * ee) * fl 1.15"
      using p lit(3) by (simp add: mult_right_mono)
    also have "\<dots> \<le> fl (i0 * ee) * fl 1.7"
      using mult q by (simp add: mult_left_mono)
    finally have "fl (fl (i0 * eh) * fl 1.15) \<le> fl (fl (i0 * ee) * fl 1.7)"
      by (rule fl_mono)
    then have "Math_round (fl (fl (i0 * eh) * fl 1.15))
               \<le> Math_round (fl (fl (i0 * ee) * fl 1.7))"
      by (rule Math_round_mono)
    then show ?thesis by (simp add: max_def)
  next
    case False
    then have "i0 * eh \<le> 0" "i0 * ee \<le> 0"
      using pos by (simp_all add: mult_le_0_iff)
    then have n: "fl (i0 * eh) \<le> 0" "fl (i0 * ee) \<le> 0" by (simp_all add: fl_nonpos)
    have "0 \<le> fl (17 / 10)" using mult lit(3) by simp
    with n lit(3) have "fl (i0 * eh) * fl 1.15 \<le> 0" "fl (i0 * ee) * fl 1.7 \<le> 0"
      by (simp_all add: mult_le_0_iff)
    then have "fl (fl (i0 * eh) * fl 1.15) \<le> 0" "fl (fl (i0 * ee) * fl 1.7) \<le> 0"
      by (simp_all add: fl_nonpos)
    then show ?thesis by (simp add: Math_round_neg)
  qed
  with hard easy show ?thesis by simp
qed

text \<open>Two repetitions, 3 days, ease 2.3: Hard gives 8 days and Easy 12.\<close>

theorem easy_interval_ge_hard_witness:
  "(3::real) \<le> 2 + 1
   \<and> interval (fst (scheduleNext (sample_card 2 3 2.3 0) 1 (ticking 1000))) = Some 8
   \<and> interval (fst (scheduleNext (sample_card 2 3 2.3 0) 3 (ticking 1000))) = Some 12
   \<and> (\<exists>h e. interval (fst (scheduleNext (sample_card 2 3 2.3 0) 1 (ticking 1000))) = Some h
          \<and> interval (fst (scheduleNext (sample_card 2 3 2.3 0) 3 (ticking 1000))) = Some e
          \<and> h \<le> e)"
proof -
  have r: "3 \<le> num_or (reps (sample_card 2 3 2.3 0)) 0 + 1"
    by (simp add: sample_card_def num_or_def)
  have v: "interval (fst (scheduleNext (sample_card 2 3 2.3 0) 1 (ticking 1000))) = Some 8"
    "interval (fst (scheduleNext (sample_card 2 3 2.3 0) 3 (ticking 1000))) = Some 12"
    by (simp_all add: scheduleNext_pass Let_def sample_card_def num_or_def clamp_def
          Math_round_def roundings fl_numeral)
  from easy_interval_ge_hard [OF r, of "ticking 1000" "ticking 1000"] v
  show ?thesis by simp
qed


section \<open>The argument of the scheduler is not modified\<close>

lemma scheduleNext_obj_again:
  "scheduleNext_obj s p 0 clk =
     (fresh s,
      s\<lparr>cells := (cells s)(fresh s := fst (scheduleNext (cells s p) 0 clk)),
        fresh := Suc (fresh s)\<rparr>,
      snd (scheduleNext (cells s p) 0 clk))"
  by (simp add: scheduleNext_obj_def scheduleNext_again alloc_def assign_def Let_def nowMs_def)

lemma scheduleNext_obj_pass:
  assumes "g \<noteq> 0"
  shows "scheduleNext_obj s p g clk =
     (fresh s,
      s\<lparr>cells := (cells s)(fresh s := fst (scheduleNext (cells s p) g clk)),
        fresh := Suc (fresh s)\<rparr>,
      snd (scheduleNext (cells s p) g clk))"
  using assms
  by (simp add: scheduleNext_obj_def scheduleNext_def alloc_def assign_def Let_def nowMs_def)

lemma scheduleNext_obj_eq:
  "scheduleNext_obj s p g clk =
     (fresh s,
      s\<lparr>cells := (cells s)(fresh s := fst (scheduleNext (cells s p) g clk)),
        fresh := Suc (fresh s)\<rparr>,
      snd (scheduleNext (cells s p) g clk))"
  by (cases "g = 0") (simp_all add: scheduleNext_obj_again scheduleNext_obj_pass)

text \<open>
  Claim C10. For every allocated card object \<open>p\<close> and every grade, the scheduler returns
  a reference \<open>c\<close> that was not allocated before the call, the object at \<open>c\<close> is the
  scheduled card, and every other object of the store, the argument \<open>p\<close> among them, is
  what it was before the call. A queue that holds \<open>p\<close> still sees the card as it was.
\<close>

theorem scheduleNext_obj_frame:
  fixes s :: store and p :: nat and g :: int and clk :: clock
  assumes p: "p < fresh s"
  shows "\<exists>c s' clk'. scheduleNext_obj s p g clk = (c, s', clk')
           \<and> c = fresh s \<and> fresh s' = Suc (fresh s)
           \<and> cells s' p = cells s p
           \<and> (\<forall>q. q \<noteq> c \<longrightarrow> cells s' q = cells s q)
           \<and> cells s' c = fst (scheduleNext (cells s p) g clk)
           \<and> clk' = snd (scheduleNext (cells s p) g clk)"
  using p by (simp add: scheduleNext_obj_eq)

theorem scheduleNext_obj_frame_witness:
  "0 < fresh sample_store
   \<and> fst (scheduleNext_obj sample_store 0 1 (ticking 1000)) = 1
   \<and> cells (fst (snd (scheduleNext_obj sample_store 0 1 (ticking 1000)))) 0 = sample_card 2 3 2.3 0
   \<and> interval (cells (fst (snd (scheduleNext_obj sample_store 0 1 (ticking 1000)))) 1) = Some 8"
proof -
  have p: "0 < fresh sample_store" by (simp add: sample_store_def)
  have i: "interval (fst (scheduleNext (sample_card 2 3 2.3 0) 1 (ticking 1000))) = Some 8"
    by (simp add: scheduleNext_pass Let_def sample_card_def num_or_def clamp_def Math_round_def
          roundings fl_numeral)
  have c: "cells sample_store 0 = sample_card 2 3 2.3 0" "fresh sample_store = 1"
    by (simp_all add: sample_store_def)
  from scheduleNext_obj_frame [OF p, of 1 "ticking 1000"] i c
  show ?thesis by auto
qed


section \<open>The Due Selector\<close>

text \<open>
  Claim C6. For every list of cards and every \<open>now\<close>, the due partition is the list
  of the cards whose \<open>due\<close> is at most \<open>now\<close>, in the order of the list, where a
  card without \<open>due\<close> is due when \<open>0 \<le> now\<close>; the other partition is the list of
  the cards whose \<open>due\<close> is later than \<open>now\<close>, in the order of the list, where a
  card without \<open>due\<close> is in it when \<open>now < 0\<close>. So a card is in the due partition
  if and only if it is in the list and its \<open>due\<close> is at most \<open>now\<close>, each partition
  is a subsequence of the list, and the two partitions together hold every card of the
  list as many times as the list does.
\<close>

theorem due_selector:
  "dueCards cs now = filter (\<lambda>c. case due c of Some d \<Rightarrow> d \<le> now | None \<Rightarrow> 0 \<le> now) cs
   \<and> notDueCards cs now
       = filter (\<lambda>c. case due c of Some d \<Rightarrow> now < d | None \<Rightarrow> now < 0) cs
   \<and> (\<forall>c. c \<in> set (dueCards cs now)
            \<longleftrightarrow> c \<in> set cs \<and> (case due c of Some d \<Rightarrow> d \<le> now | None \<Rightarrow> 0 \<le> now))
   \<and> (\<forall>c. c \<in> set (notDueCards cs now)
            \<longleftrightarrow> c \<in> set cs \<and> (case due c of Some d \<Rightarrow> now < d | None \<Rightarrow> now < 0))
   \<and> (\<forall>c. c \<in> set cs \<longleftrightarrow> c \<in> set (dueCards cs now) \<or> c \<in> set (notDueCards cs now))
   \<and> set (dueCards cs now) \<inter> set (notDueCards cs now) = {}
   \<and> subseq (dueCards cs now) cs \<and> subseq (notDueCards cs now) cs
   \<and> mset (dueCards cs now) + mset (notDueCards cs now) = mset cs"
proof -
  have p: "(num_or (due c) 0 \<le> now) = (case due c of Some d \<Rightarrow> d \<le> now | None \<Rightarrow> 0 \<le> now)"
    and q: "(now < num_or (due c) 0) = (case due c of Some d \<Rightarrow> now < d | None \<Rightarrow> now < 0)"
    for c :: CardT
    by (simp_all add: num_or_def split: option.splits)
  have n: "(case due c of Some d \<Rightarrow> now < d | None \<Rightarrow> now < 0)
           = (\<not> (case due c of Some d \<Rightarrow> d \<le> now | None \<Rightarrow> 0 \<le> now))" for c :: CardT
    by (simp add: not_le split: option.splits)
  have d: "dueCards cs now
           = filter (\<lambda>c. case due c of Some d \<Rightarrow> d \<le> now | None \<Rightarrow> 0 \<le> now) cs"
    by (simp add: dueCards_def p)
  have nd: "notDueCards cs now
            = filter (\<lambda>c. case due c of Some d \<Rightarrow> now < d | None \<Rightarrow> now < 0) cs"
    by (simp add: notDueCards_def q)
  have nd': "notDueCards cs now
            = filter (\<lambda>c. \<not> (case due c of Some d \<Rightarrow> d \<le> now | None \<Rightarrow> 0 \<le> now)) cs"
    by (simp add: nd n)
  have m: "mset (dueCards cs now) + mset (notDueCards cs now) = mset cs"
    by (simp add: d nd')
  have s: "subseq (dueCards cs now) cs" "subseq (notDueCards cs now) cs"
    by (simp_all add: d nd)
  have i: "set (dueCards cs now) \<inter> set (notDueCards cs now) = {}"
    by (auto simp add: d nd')
  have u: "\<forall>c. c \<in> set cs \<longleftrightarrow> c \<in> set (dueCards cs now) \<or> c \<in> set (notDueCards cs now)"
    by (auto simp add: d nd')
  have a: "\<forall>c. c \<in> set (dueCards cs now)
            \<longleftrightarrow> c \<in> set cs \<and> (case due c of Some d \<Rightarrow> d \<le> now | None \<Rightarrow> 0 \<le> now)"
    by (simp add: d)
  have b: "\<forall>c. c \<in> set (notDueCards cs now)
            \<longleftrightarrow> c \<in> set cs \<and> (case due c of Some d \<Rightarrow> now < d | None \<Rightarrow> now < 0)"
    by (simp add: nd)
  from d nd a b u i s m show ?thesis by blast
qed

text \<open>
  The five cards of the sample deck followed by a card without \<open>due\<close>. When the clock
  reads 1000 the cards due at 0, 10 and 1000 and the card without \<open>due\<close> are due, in
  this order, and the cards due at 5000 and 9999 are not. When the clock reads \<open>-1\<close> no
  card is due, the card without \<open>due\<close> neither.
\<close>

theorem due_selector_witness:
  "dueCards (cards five_deck @ [bare_card]) 1000
     = [due_card ''a'' 0, due_card ''c'' 10, due_card ''e'' 1000, bare_card]
   \<and> notDueCards (cards five_deck @ [bare_card]) 1000
     = [due_card ''b'' 5000, due_card ''d'' 9999]
   \<and> dueCards (cards five_deck @ [bare_card]) (- 1) = []
   \<and> notDueCards (cards five_deck @ [bare_card]) (- 1)
     = [due_card ''a'' 0, due_card ''b'' 5000, due_card ''c'' 10, due_card ''d'' 9999,
        due_card ''e'' 1000, bare_card]"
  using due_selector [of "cards five_deck @ [bare_card]" 1000]
    due_selector [of "cards five_deck @ [bare_card]" "- 1"]
  by (simp add: five_deck_def due_card_def bare_card_def)


section \<open>Grading in a session\<close>

lemma scheduleNext_fields:
  "\<exists>d e r i. due (fst (scheduleNext c g clk)) = Some d \<and> ef (fst (scheduleNext c g clk)) = Some e
     \<and> reps (fst (scheduleNext c g clk)) = Some r \<and> interval (fst (scheduleNext c g clk)) = Some i"
  by (cases "g = 0") (simp_all add: scheduleNext_again scheduleNext_pass Let_def)

lemma spread_scheduled:
  "spread k (as_patch (fst (scheduleNext c g clk)))
     = (fst (scheduleNext c g clk))
         \<lparr>lapses := over_opt (lapses (fst (scheduleNext c g clk))) (lapses k)\<rparr>"
proof -
  obtain d e r i where
    "due (fst (scheduleNext c g clk)) = Some d" "ef (fst (scheduleNext c g clk)) = Some e"
    "reps (fst (scheduleNext c g clk)) = Some r" "interval (fst (scheduleNext c g clk)) = Some i"
    using scheduleNext_fields by blast
  then show ?thesis
    by (simp add: spread_def as_patch_def over_def over_opt_def)
qed

lemma gradeLearn_applies:
  assumes "selectedDeck (app_state app) = Some sd" "learnSession app = Some ls"
    "current_card ls = Some crd"
  shows "gradeLearn app g clk =
    (app\<lparr>app_state :=
           (app_state app)\<lparr>decks :=
              map (\<lambda>d. if deck_id d = deck_id sd
                        then d\<lparr>cards :=
                               map (\<lambda>k. if card_id k = card_id crd
                                         then (fst (scheduleNext crd g clk))
                                                \<lparr>lapses := over_opt (lapses (fst (scheduleNext crd g clk)))
                                                             (lapses k)\<rparr>
                                         else k)
                                 (cards d)\<rparr>
                        else d)
                (decks (app_state app))\<rparr>,
         learnSession := Some (ls\<lparr>idx := idx ls + 1, flipped := False, graded := graded ls + 1\<rparr>)\<rparr>,
     snd (scheduleNext crd g clk))"
  using assms
  by (simp add: gradeLearn_def updateCard_def updateDeck_def spread_scheduled
      case_prod_beta Let_def)

lemma gradeLearn_noop:
  assumes "selectedDeck (app_state app) = None \<or> learnSession app = None
           \<or> (\<exists>ls. learnSession app = Some ls \<and> current_card ls = None)"
  shows "gradeLearn app g clk = (app, clk)"
  using assms by (auto simp: gradeLearn_def split: option.splits)

lemma gradeLearn_revealed:
  assumes "selectedDeck (app_state app) = Some sd" "learnSession app = Some ls"
    "current_card ls = Some crd"
  shows "gradeLearn (revealLearn app) g clk = gradeLearn app g clk"
proof -
  have s: "selectedDeck (app_state (revealLearn app)) = Some sd"
    using assms(1) by (simp add: revealLearn_def)
  have l: "learnSession (revealLearn app) = Some (ls\<lparr>flipped := True\<rparr>)"
    using assms(2) by (simp add: revealLearn_def)
  have c: "current_card (ls\<lparr>flipped := True\<rparr>) = Some crd"
    using assms(3) by (simp add: current_card_def split: if_splits)
  show ?thesis
    by (simp add: gradeLearn_applies [OF s l c] gradeLearn_applies [OF assms])
      (simp add: revealLearn_def)
qed

text \<open>
  Claim C4, as the code has it. Grading changes the state if and only if a deck is
  selected, a session exists and the queue has a card at the position of the session;
  the flip-state is not tested, and grading does the same whether the answer was
  revealed or not. Then the scheduler runs on that card, the result is
  written over every card with its identifier in the selected deck (a \<open>lapses\<close> missing
  from the result is taken from the card it replaces), the position and the graded count
  grow by 1 and the flip-state is reset. In every other state the call returns the state
  and the clock as they were.
\<close>

theorem gradeLearn_effect:
  fixes app :: App and g :: int and clk :: clock
  defines "applies \<equiv> (\<exists>sd ls crd. selectedDeck (app_state app) = Some sd
                           \<and> learnSession app = Some ls \<and> current_card ls = Some crd)"
  shows "(fst (gradeLearn app g clk) \<noteq> app \<longleftrightarrow> applies)
       \<and> (\<not> applies \<longrightarrow> gradeLearn app g clk = (app, clk))
       \<and> (\<forall>sd ls crd.
            selectedDeck (app_state app) = Some sd \<and> learnSession app = Some ls
              \<and> current_card ls = Some crd \<longrightarrow>
            gradeLearn app g clk =
              (app\<lparr>app_state :=
                     (app_state app)\<lparr>decks :=
                        map (\<lambda>d. if deck_id d = deck_id sd
                                  then d\<lparr>cards :=
                                         map (\<lambda>k. if card_id k = card_id crd
                                                   then (fst (scheduleNext crd g clk))
                                                          \<lparr>lapses :=
                                                             over_opt (lapses (fst (scheduleNext crd g clk)))
                                                               (lapses k)\<rparr>
                                                   else k)
                                           (cards d)\<rparr>
                                  else d)
                          (decks (app_state app))\<rparr>,
                   learnSession :=
                     Some (ls\<lparr>idx := idx ls + 1, flipped := False, graded := graded ls + 1\<rparr>)\<rparr>,
               snd (scheduleNext crd g clk))
            \<and> gradeLearn (revealLearn app) g clk = gradeLearn app g clk)"
proof -
  have noop: "gradeLearn app g clk = (app, clk)" if "\<not> applies"
  proof (rule gradeLearn_noop)
    from that show "selectedDeck (app_state app) = None \<or> learnSession app = None
           \<or> (\<exists>ls. learnSession app = Some ls \<and> current_card ls = None)"
      unfolding applies_def by (cases "selectedDeck (app_state app)"; cases "learnSession app") auto
  qed
  have changes: "fst (gradeLearn app g clk) \<noteq> app" if applies
  proof -
    from that obtain sd ls crd where
      h: "selectedDeck (app_state app) = Some sd" "learnSession app = Some ls"
         "current_card ls = Some crd"
      unfolding applies_def by blast
    have "learnSession (fst (gradeLearn app g clk))
          = Some (ls\<lparr>idx := idx ls + 1, flipped := False, graded := graded ls + 1\<rparr>)"
      by (simp add: gradeLearn_applies [OF h])
    moreover have "ls\<lparr>idx := idx ls + 1, flipped := False, graded := graded ls + 1\<rparr> \<noteq> ls"
    proof
      assume "ls\<lparr>idx := idx ls + 1, flipped := False, graded := graded ls + 1\<rparr> = ls"
      then have "idx (ls\<lparr>idx := idx ls + 1, flipped := False, graded := graded ls + 1\<rparr>) = idx ls"
        by simp
      then show False by simp
    qed
    ultimately show ?thesis using h(2) by auto
  qed
  have "fst (gradeLearn app g clk) = app" if "\<not> applies"
    using noop [OF that] by simp
  with changes have "fst (gradeLearn app g clk) \<noteq> app \<longleftrightarrow> applies" by blast
  moreover from noop have "\<not> applies \<longrightarrow> gradeLearn app g clk = (app, clk)" by blast
  ultimately show ?thesis using gradeLearn_applies gradeLearn_revealed by blast
qed

text \<open>
  The sample session before the answer is revealed, and the sample application without
  a session.
\<close>

theorem gradeLearn_effect_witness:
  "selectedDeck (app_state (sample_app False)) = Some sample_deck
   \<and> (\<exists>ls. learnSession (sample_app False) = Some ls
          \<and> current_card ls = Some (sample_card 0 0 2.3 0))
   \<and> fst (gradeLearn (sample_app False) 2 (ticking 1000)) \<noteq> sample_app False
   \<and> map_option idx (learnSession (fst (gradeLearn (sample_app False) 2 (ticking 1000)))) = Some 1
   \<and> map_option graded (learnSession (fst (gradeLearn (sample_app False) 2 (ticking 1000)))) = Some 1
   \<and> map (map reps \<circ> cards) (decks (app_state (fst (gradeLearn (sample_app False) 2 (ticking 1000)))))
       = [[Some 1]]
   \<and> gradeLearn (revealLearn (sample_app False)) 2 (ticking 1000)
       = gradeLearn (sample_app False) 2 (ticking 1000)
   \<and> gradeLearn ((sample_app True)\<lparr>learnSession := None\<rparr>) 2 (ticking 1000)
       = ((sample_app True)\<lparr>learnSession := None\<rparr>, ticking 1000)"
proof -
  have sd: "selectedDeck (app_state (sample_app False)) = Some sample_deck"
    by (simp add: selectedDeck_def sample_app_def sample_deck_def)
  have ls: "learnSession (sample_app False)
            = Some \<lparr>startedAt = 1000, queue = [sample_card 0 0 2.3 0], idx = 0,
                     flipped = False, graded = 0, total_cards = 1\<rparr>"
    by (simp add: sample_app_def)
  have cc: "current_card \<lparr>startedAt = 1000, queue = [sample_card 0 0 2.3 0], idx = 0,
                     flipped = False, graded = 0, total_cards = 1\<rparr> = Some (sample_card 0 0 2.3 0)"
    by (simp add: current_card_def)
  have r: "reps (fst (scheduleNext (sample_card 0 0 2.3 0) 2 (ticking 1000))) = Some 1"
    by (simp add: scheduleNext_pass Let_def sample_card_def num_or_def fl_1)
  have none: "\<not> (\<exists>sd ls crd. selectedDeck (app_state ((sample_app True)\<lparr>learnSession := None\<rparr>)) = Some sd
                           \<and> learnSession ((sample_app True)\<lparr>learnSession := None\<rparr>) = Some ls
                           \<and> current_card ls = Some crd)"
    by simp
  note w = gradeLearn_effect [of "sample_app False" 2 "ticking 1000"]
  note w' = gradeLearn_effect [of "(sample_app True)\<lparr>learnSession := None\<rparr>" 2 "ticking 1000"]
  from w sd ls cc have ne: "fst (gradeLearn (sample_app False) 2 (ticking 1000)) \<noteq> sample_app False"
    by blast
  note both = w [THEN conjunct2, THEN conjunct2, rule_format, OF conjI [OF sd conjI [OF ls cc]]]
  note eq = both [THEN conjunct1] and rv = both [THEN conjunct2]
  from w' none have no: "gradeLearn ((sample_app True)\<lparr>learnSession := None\<rparr>) 2 (ticking 1000)
       = ((sample_app True)\<lparr>learnSession := None\<rparr>, ticking 1000)" by blast
  show ?thesis
    using sd ls cc ne no r rv
    by (simp add: eq) (simp add: sample_app_def sample_deck_def)
qed

text \<open>
  The claim as it is written fails: in the sample session the answer is not revealed,
  and grading Good still moves the session to position 1.
\<close>

theorem gradeLearn_unflipped_counterexample:
  "map_option flipped (learnSession (sample_app False)) = Some False
   \<and> fst (gradeLearn (sample_app False) 2 (ticking 1000)) \<noteq> sample_app False
   \<and> map_option idx (learnSession (fst (gradeLearn (sample_app False) 2 (ticking 1000)))) = Some 1"
proof -
  have sd: "selectedDeck (app_state (sample_app False)) = Some sample_deck"
    by (simp add: selectedDeck_def sample_app_def sample_deck_def)
  have ls: "learnSession (sample_app False)
            = Some \<lparr>startedAt = 1000, queue = [sample_card 0 0 2.3 0], idx = 0,
                     flipped = False, graded = 0, total_cards = 1\<rparr>"
    by (simp add: sample_app_def)
  have cc: "current_card \<lparr>startedAt = 1000, queue = [sample_card 0 0 2.3 0], idx = 0,
                     flipped = False, graded = 0, total_cards = 1\<rparr> = Some (sample_card 0 0 2.3 0)"
    by (simp add: current_card_def)
  have i: "map_option idx (learnSession (fst (gradeLearn (sample_app False) 2 (ticking 1000)))) = Some 1"
    by (simp add: gradeLearn_applies [OF sd ls cc])
  moreover have "map_option idx (learnSession (sample_app False)) = Some 0"
    by (simp add: ls)
  ultimately have "fst (gradeLearn (sample_app False) 2 (ticking 1000)) \<noteq> sample_app False"
    by auto
  with i show ?thesis by (simp add: ls)
qed



section \<open>Starting a session\<close>



lemma shuffle_loop_Suc:
  "shuffle_loop (Suc k) a g =
     shuffle_loop k (a[Suc k := a ! nat \<lfloor>fl (g 0 * (real (Suc k) + 1))\<rfloor>,
                       nat \<lfloor>fl (g 0 * (real (Suc k) + 1))\<rfloor> := a ! Suc k])
       (\<lambda>n. g (Suc n))"
  by (simp add: Math_random_def Let_def)

lemma length_shuffle_loop: "length (fst (shuffle_loop m a g)) = length a"
  by (induction m arbitrary: a g) (simp_all add: shuffle_loop_Suc del: shuffle_loop.simps(2))






















end
